theory Spec2Isabelle
  imports Main "HOL-Library.Word" "HOL-Library.AList"
begin

section \<open>Data model of the WebSocket fan-out core (internal/websocket/handlers.go)\<close>

text \<open>
  A \<^verbatim>\<open>*websocket.Conn\<close> is used by the handlers only as a map key and as the target of
  reads, writes and \<^verbatim>\<open>Close\<close>; it is modelled by its identity. Go's \<^verbatim>\<open>error\<close> values are
  modelled by their text, \<^verbatim>\<open>int64\<close> and \<^verbatim>\<open>int32\<close> by machine words.
\<close>

type_synonym conn = nat
type_synonym error = string
type_synonym int64 = "64 word"
type_synonym int32 = "32 word"

text \<open>
  The \<^verbatim>\<open>Data interface{}\<close> field holds whatever JSON value the client sent, a Go string,
  or a Go map of strings; all of them are JSON values. Number literals are kept as text.
\<close>

datatype jvalue =
    JNull
  | JBool bool
  | JNum string
  | JStr string
  | JArr "jvalue list"
  | JObj "(string \<times> jvalue) list"

record Message =
  Type :: string
  Data :: jvalue
  Timestamp :: int64
  Room :: string

text \<open>
  What \<^verbatim>\<open>json.Unmarshal\<close> found in a syntactically valid text: for each field of
  \<^verbatim>\<open>Message\<close> either the value present in the text or nothing.
\<close>

record wire_fields =
  w_type :: "string option"
  w_data :: "jvalue option"
  w_timestamp :: "int64 option"
  w_room :: "string option"

text \<open>
  The result of \<^verbatim>\<open>ws.ReadMessage()\<close>: a message type with the payload bytes, or an error.
\<close>

datatype read_result = ReadOK nat string | ReadErr error

definition TextMessage :: nat where
  "TextMessage = 1"

definition BinaryMessage :: nat where
  "BinaryMessage = 2"

text \<open>
  Everything the handlers take from outside the process:
  \<^item> \<open>clk\<close>: the readings of \<^verbatim>\<open>time.Now().Unix()\<close>, in the order the calls are made;
  \<^item> \<open>write_err\<close>: the result of the \<open>n\<close>-th call of \<^verbatim>\<open>ws.WriteJSON\<close> (counted over all
    connections), made on the given connection: \<open>None\<close> for \<^verbatim>\<open>nil\<close>;
  \<^item> \<open>unmarshal\<close>: the parser behind \<^verbatim>\<open>json.Unmarshal\<close>: the text of the error, or the
    fields found;
  \<^item> \<open>recv\<close>: the result of the \<open>i\<close>-th call of \<^verbatim>\<open>ws.ReadMessage()\<close> on a connection;
  \<^item> \<open>upgrade\<close>: the result of \<^verbatim>\<open>upgrader.Upgrade\<close> for the request that becomes the
    given connection.
\<close>

record env =
  clk :: "nat \<Rightarrow> int64"
  write_err :: "nat \<Rightarrow> conn \<Rightarrow> error option"
  unmarshal :: "string \<Rightarrow> error + wire_fields"
  recv :: "conn \<Rightarrow> nat \<Rightarrow> read_result"
  upgrade :: "conn \<Rightarrow> error option"

text \<open>
  The state: the two maps of \<^verbatim>\<open>WebSocketHandlers\<close>, and what the handlers did to the
  outside: every \<^verbatim>\<open>WriteJSON\<close> call in order (target, envelope, whether it succeeded),
  every \<^verbatim>\<open>Close\<close> call in order, each with the number of \<^verbatim>\<open>WriteJSON\<close> calls made
  before it (so that the order of closes and writes can be read off), and the number of
  clock readings taken.

  A \<^verbatim>\<open>map[*websocket.Conn]bool\<close> is an association list, since the handlers range over
  it. Go leaves the order of \<^verbatim>\<open>range\<close> over a map unspecified; the model ranges in the
  order of the list, and the theorems below hold for every list.
\<close>

type_synonym members = "(conn \<times> bool) list"

record world =
  clients :: members
  rooms :: "string \<rightharpoonup> members"
  wire :: "(conn \<times> Message \<times> bool) list"
  closes :: "(conn \<times> nat) list"
  ticks :: nat

definition NewWebSocketHandlers :: world where
  "NewWebSocketHandlers =
     \<lparr>clients = [], rooms = Map.empty, wire = [], closes = [], ticks = 0\<rparr>"

text \<open>
  \<^verbatim>\<open>h.rooms[room]\<close>: the nil map for a label with no entry. Reading, measuring and
  ranging over a nil map behave as for an empty one.
\<close>

definition room_members :: "world \<Rightarrow> string \<Rightarrow> members" where
  "room_members w room = (case rooms w room of None \<Rightarrow> [] | Some m \<Rightarrow> m)"

definition time_Now_Unix :: "env \<Rightarrow> world \<Rightarrow> int64 \<times> world" where
  "time_Now_Unix e w = (clk e (ticks w), w\<lparr>ticks := Suc (ticks w)\<rparr>)"

definition conn_Close :: "conn \<Rightarrow> world \<Rightarrow> world" where
  "conn_Close c w = w\<lparr>closes := closes w @ [(c, length (wire w))]\<rparr>"

section \<open>Decoding and encoding\<close>

text \<open>
  \<^verbatim>\<open>var msg Message\<close> followed by a successful \<^verbatim>\<open>json.Unmarshal(data, &msg)\<close>: a field
  absent from the text keeps its zero value.
\<close>

definition zero_Message :: Message where
  "zero_Message = \<lparr>Type = [], Data = JNull, Timestamp = 0, Room = []\<rparr>"

definition store_fields :: "wire_fields \<Rightarrow> Message" where
  "store_fields f =
     \<lparr>Type = (case w_type f of None \<Rightarrow> Type zero_Message | Some s \<Rightarrow> s),
      Data = (case w_data f of None \<Rightarrow> Data zero_Message | Some d \<Rightarrow> d),
      Timestamp = (case w_timestamp f of None \<Rightarrow> Timestamp zero_Message | Some t \<Rightarrow> t),
      Room = (case w_room f of None \<Rightarrow> Room zero_Message | Some r \<Rightarrow> r)\<rparr>"

definition safeReadJSON :: "env \<Rightarrow> read_result \<Rightarrow> world \<Rightarrow> (error + Message) \<times> world" where
  "safeReadJSON e rd w =
     (case rd of
        ReadErr err \<Rightarrow> (Inl err, w)
      | ReadOK messageType data \<Rightarrow>
          if messageType \<noteq> TextMessage then
            (let (t, w1) = time_Now_Unix e w
             in (Inr \<lparr>Type = ''error'', Data = JStr ''Binary messages not supported'',
                      Timestamp = t, Room = []\<rparr>, w1))
          else
            (case unmarshal e data of
               Inl err \<Rightarrow>
                 (let (t, w1) = time_Now_Unix e w
                  in (Inr \<lparr>Type = ''json_error'',
                           Data = JObj [(''error'', JStr ''Invalid JSON format''),
                                        (''details'', JStr err),
                                        (''raw_data'', JStr data)],
                           Timestamp = t, Room = []\<rparr>, w1))
             | Inr f \<Rightarrow>
                 (let msg = store_fields f
                  in if Timestamp msg = 0 then
                       (let (t, w1) = time_Now_Unix e w
                        in (Inr (msg\<lparr>Timestamp := t\<rparr>), w1))
                     else (Inr msg, w))))"

definition safeWriteJSON :: "env \<Rightarrow> conn \<Rightarrow> Message \<Rightarrow> world \<Rightarrow> error option \<times> world" where
  "safeWriteJSON e ws data w =
     (let err = write_err e (length (wire w)) ws
      in (err, w\<lparr>wire := wire w @ [(ws, data, err = None)]\<rparr>))"

section \<open>Connection registry\<close>

text \<open>
  Each of the four functions holds \<^verbatim>\<open>h.mutex\<close> from its first statement to its return,
  so no other goroutine sees the maps in between: a call is one step on the state.
\<close>

definition addClient :: "conn \<Rightarrow> world \<Rightarrow> world" where
  "addClient c w = w\<lparr>clients := AList.update c True (clients w)\<rparr>"

definition removeClient :: "conn \<Rightarrow> world \<Rightarrow> world" where
  "removeClient c w =
     (if map_of (clients w) c \<noteq> None
      then conn_Close c (w\<lparr>clients := AList.delete c (clients w)\<rparr>)
      else w)"

definition addToRoom :: "conn \<Rightarrow> string \<Rightarrow> world \<Rightarrow> world" where
  "addToRoom c room w =
     (let w1 = (if rooms w room = None then w\<lparr>rooms := (rooms w)(room \<mapsto> [])\<rparr> else w)
      in w1\<lparr>rooms := (rooms w1)(room \<mapsto> AList.update c True (room_members w1 room))\<rparr>)"

definition removeFromRoom :: "conn \<Rightarrow> string \<Rightarrow> world \<Rightarrow> world" where
  "removeFromRoom c room w =
     (let w1 =
        (if rooms w room \<noteq> None then
           (if map_of (room_members w room) c \<noteq> None then
              (let w2 = w\<lparr>rooms := (rooms w)(room \<mapsto> AList.delete c (room_members w room))\<rparr>
               in if length (room_members w2 room) = 0
                  then w2\<lparr>rooms := (rooms w2)(room := None)\<rparr>
                  else w2)
            else w)
         else w)
      in conn_Close c w1)"

section \<open>Broadcast engine\<close>

text \<open>
  The body of both \<^verbatim>\<open>range\<close> loops: one write per member, the success count carried
  along; a failed write is only logged.
\<close>

fun deliver :: "env \<Rightarrow> Message \<Rightarrow> conn list \<Rightarrow> nat \<Rightarrow> world \<Rightarrow> nat \<times> world" where
  "deliver e msg [] successCount w = (successCount, w)"
| "deliver e msg (client # cs) successCount w =
     (case safeWriteJSON e client msg w of
        (Some err, w1) \<Rightarrow> deliver e msg cs successCount w1
      | (None, w1) \<Rightarrow> deliver e msg cs (Suc successCount) w1)"

text \<open>
  Both functions return nothing in the source; the model returns the success count that
  the last log line reports (0 where the source returns before the loop). They read the
  size of the map under the read lock, release it, and take the read lock again for the
  loop; the model runs a call as one step, on the registry it starts with. The registry
  cannot change while the loop runs, since the loop holds the read lock.
\<close>

definition broadcastToAll :: "env \<Rightarrow> Message \<Rightarrow> world \<Rightarrow> nat \<times> world" where
  "broadcastToAll e msg w =
     (let clientCount = length (clients w)
      in if clientCount = 0 then (0, w)
         else deliver e msg (map fst (clients w)) 0 w)"

definition broadcastToRoom :: "env \<Rightarrow> string \<Rightarrow> Message \<Rightarrow> world \<Rightarrow> nat \<times> world" where
  "broadcastToRoom e room msg w =
     (case rooms w room of
        None \<Rightarrow> (0, w)
      | Some roomClients \<Rightarrow>
          (let clientCount = length roomClients
           in if clientCount = 0 then (0, w)
              else deliver e msg (map fst (room_members w room)) 0 w))"

section \<open>Session lifecycle\<close>

text \<open>
  Each handler is \<^emph>\<open>open\<close>; \<^verbatim>\<open>for { ... }\<close>; \<^emph>\<open>close\<close>. One pass through the body of the
  loop either goes on to the next read (\<^verbatim>\<open>continue\<close>, or the end of the body) or leaves
  the loop (\<^verbatim>\<open>break\<close>).
\<close>

datatype verdict = Continue | Break

definition Echo_body :: "env \<Rightarrow> conn \<Rightarrow> read_result \<Rightarrow> world \<Rightarrow> verdict \<times> world" where
  "Echo_body e ws rd w =
     (case safeReadJSON e rd w of
        (Inl err, w1) \<Rightarrow> (Break, w1)
      | (Inr msg, w1) \<Rightarrow>
          if Type msg = ''json_error'' then
            (case safeWriteJSON e ws msg w1 of
               (Some err, w2) \<Rightarrow> (Break, w2)
             | (None, w2) \<Rightarrow> (Continue, w2))
          else
            (let (t, w2) = time_Now_Unix e w1;
                 response = \<lparr>Type = ''echo'', Data = Data msg, Timestamp = t, Room = []\<rparr>
             in case safeWriteJSON e ws response w2 of
                  (Some err, w3) \<Rightarrow> (Break, w3)
                | (None, w3) \<Rightarrow> (Continue, w3)))"

definition Broadcast_body :: "env \<Rightarrow> conn \<Rightarrow> read_result \<Rightarrow> world \<Rightarrow> verdict \<times> world" where
  "Broadcast_body e ws rd w =
     (case safeReadJSON e rd w of
        (Inl err, w1) \<Rightarrow> (Break, w1)
      | (Inr msg, w1) \<Rightarrow>
          if Type msg = ''json_error'' then
            (case safeWriteJSON e ws msg w1 of
               (Some err, w2) \<Rightarrow> (Break, w2)
             | (None, w2) \<Rightarrow> (Continue, w2))
          else
            (let (t, w2) = time_Now_Unix e w1;
                 broadcast = \<lparr>Type = ''broadcast'', Data = Data msg, Timestamp = t, Room = []\<rparr>
             in (Continue, snd (broadcastToAll e broadcast w2))))"

definition Chat_body :: "env \<Rightarrow> string \<Rightarrow> conn \<Rightarrow> read_result \<Rightarrow> world \<Rightarrow> verdict \<times> world" where
  "Chat_body e room ws rd w =
     (case safeReadJSON e rd w of
        (Inl err, w1) \<Rightarrow> (Break, w1)
      | (Inr msg, w1) \<Rightarrow>
          if Type msg = ''json_error'' then
            (case safeWriteJSON e ws (msg\<lparr>Room := room\<rparr>) w1 of
               (Some err, w2) \<Rightarrow> (Break, w2)
             | (None, w2) \<Rightarrow> (Continue, w2))
          else
            (let (t, w2) = time_Now_Unix e w1;
                 chatMsg = \<lparr>Type = ''chat'', Data = Data msg, Timestamp = t, Room = room\<rparr>
             in (Continue, snd (broadcastToRoom e room chatMsg w2))))"

text \<open>
  The \<^verbatim>\<open>for { ... }\<close> of the three handlers: the \<open>i\<close>-th pass reads the \<open>i\<close>-th result of
  \<^verbatim>\<open>ReadMessage\<close>. The loop has no bound: on a connection that never fails a read (and
  never fails a write where the body breaks on one) it does not return, which is the
  value \<open>None\<close>.
\<close>

partial_function (option) read_loop ::
  "(read_result \<Rightarrow> world \<Rightarrow> verdict \<times> world) \<Rightarrow> (nat \<Rightarrow> read_result) \<Rightarrow> nat \<Rightarrow> world \<Rightarrow> world option"
where
  "read_loop body reads i w =
     (case body (reads i) w of
        (Break, w1) \<Rightarrow> Some w1
      | (Continue, w1) \<Rightarrow> read_loop body reads (Suc i) w1)"

text \<open>What a handler returns to the HTTP framework.\<close>

datatype outcome = UpgradeFailed error | BadRequest | Returned

definition Echo :: "env \<Rightarrow> conn \<Rightarrow> world \<Rightarrow> (outcome \<times> world) option" where
  "Echo e ws w =
     (case upgrade e ws of
        Some err \<Rightarrow> Some (UpgradeFailed err, w)
      | None \<Rightarrow>
          (let (t, w1) = time_Now_Unix e w;
               welcome = \<lparr>Type = ''welcome'',
                          Data = JStr ''Connected to Echo WebSocket. Send any JSON message to echo it back.'',
                          Timestamp = t, Room = []\<rparr>
           in case safeWriteJSON e ws welcome w1 of
                (Some err, w2) \<Rightarrow> Some (Returned, conn_Close ws w2)
              | (None, w2) \<Rightarrow>
                  (case read_loop (Echo_body e ws) (recv e ws) 0 w2 of
                     None \<Rightarrow> None
                   | Some w3 \<Rightarrow> Some (Returned, conn_Close ws w3))))"

definition Broadcast :: "env \<Rightarrow> conn \<Rightarrow> world \<Rightarrow> (outcome \<times> world) option" where
  "Broadcast e ws w =
     (case upgrade e ws of
        Some err \<Rightarrow> Some (UpgradeFailed err, w)
      | None \<Rightarrow>
          (let w1 = addClient ws w;
               (t, w2) = time_Now_Unix e w1;
               welcome = \<lparr>Type = ''welcome'',
                          Data = JStr ''Connected to Broadcast WebSocket. Your messages will be sent to all connected clients.'',
                          Timestamp = t, Room = []\<rparr>;
               w3 = snd (safeWriteJSON e ws welcome w2)
           in case read_loop (Broadcast_body e ws) (recv e ws) 0 w3 of
                None \<Rightarrow> None
              | Some w4 \<Rightarrow> Some (Returned, removeClient ws w4)))"

text \<open>
  The chat handler in its three parts. \<open>Chat_open\<close> is the code from \<^verbatim>\<open>addToRoom\<close> to the
  join notice; \<open>Chat_close\<close> is the code after the loop followed by the deferred
  \<^verbatim>\<open>removeFromRoom\<close>, which Go runs when the handler returns.
\<close>

definition Chat_open :: "env \<Rightarrow> string \<Rightarrow> conn \<Rightarrow> world \<Rightarrow> world" where
  "Chat_open e room ws w =
     (let w1 = addToRoom ws room w;
          (t, w2) = time_Now_Unix e w1;
          welcome = \<lparr>Type = ''welcome'',
                     Data = JObj [(''message'',
                       JStr (''Connected to room '' @ room @ ''. Send JSON messages to chat.''))],
                     Timestamp = t, Room = room\<rparr>;
          w3 = snd (safeWriteJSON e ws welcome w2);
          (t', w4) = time_Now_Unix e w3;
          joinMsg = \<lparr>Type = ''join'',
                     Data = JObj [(''message'', JStr (''User joined room '' @ room))],
                     Timestamp = t', Room = room\<rparr>
      in snd (broadcastToRoom e room joinMsg w4))"

definition Chat_close :: "env \<Rightarrow> string \<Rightarrow> conn \<Rightarrow> world \<Rightarrow> world" where
  "Chat_close e room ws w =
     (let (t, w1) = time_Now_Unix e w;
          leaveMsg = \<lparr>Type = ''leave'',
                      Data = JObj [(''message'', JStr (''User left room '' @ room))],
                      Timestamp = t, Room = room\<rparr>;
          w2 = snd (broadcastToRoom e room leaveMsg w1)
      in removeFromRoom ws room w2)"

definition Chat :: "env \<Rightarrow> string \<Rightarrow> conn \<Rightarrow> world \<Rightarrow> (outcome \<times> world) option" where
  "Chat e room ws w =
     (if room = [] then Some (BadRequest, w)
      else
        (case upgrade e ws of
           Some err \<Rightarrow> Some (UpgradeFailed err, w)
         | None \<Rightarrow>
             (case read_loop (Chat_body e room ws) (recv e ws) 0 (Chat_open e room ws w) of
                None \<Rightarrow> None
              | Some w1 \<Rightarrow> Some (Returned, Chat_close e room ws w1))))"

text \<open>The writes made between two states, and those of them addressed to one connection.\<close>

definition sent_during :: "world \<Rightarrow> world \<Rightarrow> (conn \<times> Message \<times> bool) list" where
  "sent_during w w' = drop (length (wire w)) (wire w')"

definition received_by :: "conn \<Rightarrow> world \<Rightarrow> world \<Rightarrow> (conn \<times> Message \<times> bool) list" where
  "received_by c w w' = filter (\<lambda>x. fst x = c) (sent_during w w')"

section \<open>Streaming calls (package grpc)\<close>

text \<open>
  The messages of proto/mock.proto. The fields \<^verbatim>\<open>Id\<close>, \<^verbatim>\<open>Data\<close>, \<^verbatim>\<open>Timestamp\<close> and
  \<^verbatim>\<open>Sequence\<close> carry a prefix here, since \<open>Data\<close> and \<open>Timestamp\<close> are fields of
  \<open>Message\<close> already.
\<close>

record StreamRequest =
  req_Id :: string
  req_Data :: string

record StreamResponse =
  resp_Id :: string
  resp_Data :: string
  resp_Timestamp :: int64
  resp_Sequence :: int32

text \<open>The result of \<^verbatim>\<open>stream.Recv()\<close>: an item, \<^verbatim>\<open>io.EOF\<close>, or another error.\<close>

datatype recv_result = Item StreamRequest | EOF | RecvErr error

text \<open>
  What a call takes from its stream: the result of the \<open>i\<close>-th \<^verbatim>\<open>Recv\<close>, of the \<open>i\<close>-th
  \<^verbatim>\<open>Send\<close>, of the \<open>i\<close>-th \<^verbatim>\<open>stream.Context().Err()\<close>, and the \<open>i\<close>-th clock reading.
  Both loops below make at most one call of each kind per pass, so the number of the
  pass numbers the calls.
\<close>

record stream_env =
  stream_Recv :: "nat \<Rightarrow> recv_result"
  stream_Send :: "nat \<Rightarrow> error option"
  stream_ctx_Err :: "nat \<Rightarrow> error option"
  stream_clk :: "nat \<Rightarrow> int64"

text \<open>\<^verbatim>\<open>%d\<close> of a non-negative number.\<close>

function show_nat :: "nat \<Rightarrow> string" where
  "show_nat n =
     (if n < 10 then [char_of (48 + n)]
      else show_nat (n div 10) @ [char_of (48 + n mod 10)])"
  by pat_completeness auto
termination
  by (relation "measure id") auto

text \<open>
  \<^verbatim>\<open>ServerStream\<close>: \<^verbatim>\<open>for i := 0; i < 5; i++\<close>. The result is the error returned
  (\<open>None\<close> for \<^verbatim>\<open>nil\<close>) and the responses whose \<^verbatim>\<open>Send\<close> succeeded, in order.
\<close>

function ServerStream_loop ::
  "stream_env \<Rightarrow> StreamRequest \<Rightarrow> nat \<Rightarrow> StreamResponse list \<Rightarrow> error option \<times> StreamResponse list"
where
  "ServerStream_loop e req i out =
     (if i < 5 then
        (case stream_ctx_Err e i of
           Some err \<Rightarrow> (Some err, out)
         | None \<Rightarrow>
             (let response =
                    \<lparr>resp_Id = req_Id req,
                     resp_Data = req_Data req @ '' - response '' @ show_nat (i + 1),
                     resp_Timestamp = stream_clk e i,
                     resp_Sequence = of_nat (i + 1)\<rparr>
              in case stream_Send e i of
                   Some err \<Rightarrow> (Some err, out)
                 | None \<Rightarrow> ServerStream_loop e req (i + 1) (out @ [response])))
      else (None, out))"
  by pat_completeness auto
termination
  by (relation "measure (\<lambda>(e, req, i, out). 5 - i)") auto

definition ServerStream :: "stream_env \<Rightarrow> StreamRequest \<Rightarrow> error option \<times> StreamResponse list" where
  "ServerStream e req = ServerStream_loop e req 0 []"

text \<open>
  \<^verbatim>\<open>errChan := make(chan error, 2)\<close>: the values buffered and whether the channel is
  closed. A receive takes the oldest buffered value; on an empty closed channel it yields
  the zero value \<^verbatim>\<open>nil\<close>; on an empty open channel it blocks (\<open>None\<close>).
\<close>

record chan =
  buf :: "error list"
  is_closed :: bool

definition make_chan :: chan where
  "make_chan = \<lparr>buf = [], is_closed = False\<rparr>"

definition chan_send :: "error \<Rightarrow> chan \<Rightarrow> chan" where
  "chan_send err ch = ch\<lparr>buf := buf ch @ [err]\<rparr>"

definition chan_close :: "chan \<Rightarrow> chan" where
  "chan_close ch = ch\<lparr>is_closed := True\<rparr>"

definition chan_recv :: "chan \<Rightarrow> error option option" where
  "chan_recv ch =
     (case buf ch of
        err # rest \<Rightarrow> Some (Some err)
      | [] \<Rightarrow> if is_closed ch then Some None else None)"

text \<open>
  The receiving goroutine of \<^verbatim>\<open>BidiStream\<close>: it owns \<^verbatim>\<open>sequence\<close>, and it is the only
  sender on the stream. The loop has no bound: on a stream that keeps delivering items
  and accepting responses it does not return (\<open>None\<close>).
\<close>

partial_function (option) recv_flow ::
  "stream_env \<Rightarrow> nat \<Rightarrow> int32 \<Rightarrow> StreamResponse list \<Rightarrow> chan \<Rightarrow> (StreamResponse list \<times> chan) option"
where
  "recv_flow e i sequence out errChan =
     (case stream_Recv e i of
        EOF \<Rightarrow> Some (out, errChan)
      | RecvErr err \<Rightarrow> Some (out, chan_send err errChan)
      | Item req \<Rightarrow>
          (let sequence1 = sequence + 1;
               response =
                 \<lparr>resp_Id = req_Id req,
                  resp_Data = ''Echo: '' @ req_Data req @ '' (processed)'',
                  resp_Timestamp = stream_clk e i,
                  resp_Sequence = sequence1\<rparr>
           in case stream_Send e i of
                Some err \<Rightarrow> Some (out, chan_send err errChan)
              | None \<Rightarrow> recv_flow e (Suc i) sequence1 (out @ [response]) errChan))"

text \<open>
  \<^verbatim>\<open>BidiStream\<close>: the goroutine above, a second one that closes the channel once the first
  has returned, and the caller's \<^verbatim>\<open>err := <-errChan\<close>. The goroutine sends its error, if
  any, before it returns, and the channel is closed only after that, so the value the
  caller receives is the same under every schedule; the model runs the three in that
  order. The result is the error returned and the responses sent.
\<close>

definition BidiStream :: "stream_env \<Rightarrow> (error option \<times> StreamResponse list) option" where
  "BidiStream e =
     (case recv_flow e 0 0 [] make_chan of
        None \<Rightarrow> None
      | Some (out, errChan) \<Rightarrow>
          (case chan_recv (chan_close errChan) of
             None \<Rightarrow> None
           | Some err \<Rightarrow> Some (err, out)))"

section \<open>Reference descriptions and sample inputs\<close>

text \<open>
  The writes a fan-out over \<open>cs\<close> is expected to make when \<open>k\<close> writes were made before
  it: one per member, in order, each with the outcome the transport gives it.
\<close>

fun expected_writes :: "env \<Rightarrow> Message \<Rightarrow> conn list \<Rightarrow> nat \<Rightarrow> (conn \<times> Message \<times> bool) list" where
  "expected_writes e msg [] k = []"
| "expected_writes e msg (c # cs) k =
     (c, msg, write_err e k c = None) # expected_writes e msg cs (Suc k)"

text \<open>
  The contract of a delivery to a snapshot, in the words of the specification: the
  membership structures and the transports' open/closed state are as before; one write
  was attempted per connection of the snapshot, in order, each carrying the envelope;
  a write counts as a success exactly when the transport accepted it; and \<open>n\<close> is the
  number of successes.
\<close>

definition fanout_contract :: "env \<Rightarrow> Message \<Rightarrow> conn list \<Rightarrow> world \<Rightarrow> nat \<Rightarrow> world \<Rightarrow> bool" where
  "fanout_contract e msg snapshot w n w' \<longleftrightarrow>
     clients w' = clients w \<and> rooms w' = rooms w \<and> closes w' = closes w \<and>
     (\<exists>new. wire w' = wire w @ new \<and>
        map fst new = snapshot \<and>
        (\<forall>x \<in> set new. fst (snd x) = msg) \<and>
        (\<forall>i < length new.
           snd (snd (new ! i)) = (write_err e (length (wire w) + i) (snapshot ! i) = None)) \<and>
        n = length (filter (\<lambda>x. snd (snd x)) new))"

text \<open>
  Sample inputs: a transport on which every write succeeds and every text is rejected by
  the parser; the same with connection 2 unable to take writes; an envelope; and a
  registry with three global clients, connections 1 and 2 in room A and connection 3 in
  room B.
\<close>

definition env_ok :: env where
  "env_ok = \<lparr>clk = (\<lambda>n. 1700000000 + of_nat n), write_err = (\<lambda>n c. None),
     unmarshal = (\<lambda>s. Inl ''invalid character''), recv = (\<lambda>c i. ReadErr ''EOF''),
     upgrade = (\<lambda>c. None)\<rparr>"

definition env_2down :: env where
  "env_2down = env_ok\<lparr>write_err := (\<lambda>n c. if c = 2 then Some ''broken pipe'' else None)\<rparr>"

definition hello :: Message where
  "hello = \<lparr>Type = ''broadcast'', Data = JStr ''hi'', Timestamp = 1700000000, Room = []\<rparr>"

definition w3 :: world where
  "w3 = \<lparr>clients = [(1, True), (2, True), (3, True)],
          rooms = [''A'' \<mapsto> [(1, True), (2, True)], ''B'' \<mapsto> [(3, True)]],
          wire = [], closes = [], ticks = 0\<rparr>"

text \<open>
  Sequences of registry operations. \<open>run_ops\<close> runs them on the registry; \<open>audience_after\<close>
  follows the specification's words on plain sets: join inserts, leave removes. An
  audience's member set is read off the registry by \<open>audience\<close>.
\<close>

datatype reg_op = Join conn string | Leave conn string

fun run_ops :: "reg_op list \<Rightarrow> world \<Rightarrow> world" where
  "run_ops [] w = w"
| "run_ops (Join c room # ops) w = run_ops ops (addToRoom c room w)"
| "run_ops (Leave c room # ops) w = run_ops ops (removeFromRoom c room w)"

fun audience_after :: "reg_op list \<Rightarrow> (string \<Rightarrow> conn set) \<Rightarrow> string \<Rightarrow> conn set" where
  "audience_after [] A = A"
| "audience_after (Join c room # ops) A = audience_after ops (A(room := insert c (A room)))"
| "audience_after (Leave c room # ops) A = audience_after ops (A(room := A room - {c}))"

definition no_empty_room :: "world \<Rightarrow> bool" where
  "no_empty_room w \<longleftrightarrow> (\<forall>room. rooms w room \<noteq> Some [])"

definition audience :: "world \<Rightarrow> string \<Rightarrow> conn set" where
  "audience w room = fst ` set (room_members w room)"

text \<open>
  What one pass of a loop body does to the state: it takes clock readings and appends
  writes; the summary says to whom, of what kind, and with which timestamps.
\<close>

definition body_effect ::
  "env \<Rightarrow> conn set \<Rightarrow> string set \<Rightarrow> world \<Rightarrow> world \<Rightarrow> bool" where
  "body_effect e targets kinds w w' \<longleftrightarrow>
     (\<exists>k new. w' = w\<lparr>ticks := k, wire := wire w @ new\<rparr> \<and> ticks w \<le> k \<and>
        (\<forall>x \<in> set new. fst x \<in> targets \<and> Type (fst (snd x)) \<in> kinds \<and>
           ((\<forall>j \<ge> ticks w. clk e j \<noteq> 0) \<longrightarrow> Timestamp (fst (snd x)) \<noteq> 0)))"

text \<open>
  A transport whose parser accepts two texts, one with an explicit timestamp 0 and one
  without a timestamp, and rejects every other text.
\<close>

definition env_json :: env where
  \<open>env_json = env_ok\<lparr>unmarshal := (\<lambda>s.
     if s = ''{"data":"hi","timestamp":0}''
       then Inr \<lparr>w_type = None, w_data = Some (JStr ''hi''), w_timestamp = Some 0, w_room = None\<rparr>
     else if s = ''{"data":"hi"}''
       then Inr \<lparr>w_type = None, w_data = Some (JStr ''hi''), w_timestamp = None, w_room = None\<rparr>
     else Inl ''invalid character'')\<rparr>\<close>

text \<open>
  Reference descriptions for the duplex call. Pass \<open>j\<close> of the receive flow \<^emph>\<open>goes on\<close>
  when it receives an item and its response is sent. At the first pass that does not go
  on, the flow's outcome is success on end of input, the receive error, or the send
  error. The response to item \<open>j\<close> (counted from 0) echoes its identifier and data and
  carries the sequence number \<open>j + 1\<close> as an \<^verbatim>\<open>int32\<close>.
\<close>

definition goes_on :: "stream_env \<Rightarrow> nat \<Rightarrow> bool" where
  "goes_on e j = (case stream_Recv e j of Item req \<Rightarrow> stream_Send e j = None | _ \<Rightarrow> False)"

definition flow_outcome :: "stream_env \<Rightarrow> nat \<Rightarrow> error option" where
  "flow_outcome e K =
     (case stream_Recv e K of EOF \<Rightarrow> None | RecvErr err \<Rightarrow> Some err
      | Item req \<Rightarrow> stream_Send e K)"

definition request_at :: "stream_env \<Rightarrow> nat \<Rightarrow> StreamRequest" where
  "request_at e j =
     (case stream_Recv e j of Item req \<Rightarrow> req | _ \<Rightarrow> \<lparr>req_Id = [], req_Data = []\<rparr>)"

definition echo_response :: "stream_env \<Rightarrow> nat \<Rightarrow> StreamResponse" where
  "echo_response e j =
     \<lparr>resp_Id = req_Id (request_at e j),
      resp_Data = ''Echo: '' @ req_Data (request_at e j) @ '' (processed)'',
      resp_Timestamp = stream_clk e j,
      resp_Sequence = of_nat (Suc j)\<rparr>"

text \<open>The \<open>i\<close>-th response (counted from 0) of the server-streaming call.\<close>

definition server_response :: "stream_env \<Rightarrow> StreamRequest \<Rightarrow> nat \<Rightarrow> StreamResponse" where
  "server_response e req i =
     \<lparr>resp_Id = req_Id req,
      resp_Data = req_Data req @ '' - response '' @ show_nat (i + 1),
      resp_Timestamp = stream_clk e i,
      resp_Sequence = of_nat (i + 1)\<rparr>"

text \<open>
  Sample streams: the given items followed for ever by one final result, every send
  succeeding; a stream that never ends; and a stream of \<open>2\<^sup>3\<^sup>1\<close> items followed by the
  end of input.
\<close>

definition senv :: "StreamRequest list \<Rightarrow> recv_result \<Rightarrow> stream_env" where
  "senv items final =
     \<lparr>stream_Recv = (\<lambda>i. if i < length items then Item (items ! i) else final),
      stream_Send = (\<lambda>i. None), stream_ctx_Err = (\<lambda>i. None),
      stream_clk = (\<lambda>i. 1700000000)\<rparr>"

definition ping :: StreamRequest where
  "ping = \<lparr>req_Id = ''a'', req_Data = ''ping''\<rparr>"

definition senv_endless :: stream_env where
  "senv_endless =
     \<lparr>stream_Recv = (\<lambda>i. Item ping), stream_Send = (\<lambda>i. None), stream_ctx_Err = (\<lambda>i. None),
      stream_clk = (\<lambda>i. 1700000000)\<rparr>"

definition senv_flood :: stream_env where
  "senv_flood =
     \<lparr>stream_Recv = (\<lambda>i. if i < 2147483648 then Item ping else EOF),
      stream_Send = (\<lambda>i. None), stream_ctx_Err = (\<lambda>i. None),
      stream_clk = (\<lambda>i. 1700000000)\<rparr>"

section \<open>Broadcast engine: what a fan-out does\<close>

lemma safeWriteJSON_eq:
  "safeWriteJSON e c m w =
     (write_err e (length (wire w)) c,
      w\<lparr>wire := wire w @ [(c, m, write_err e (length (wire w)) c = None)]\<rparr>)"
  by (simp add: safeWriteJSON_def Let_def)

lemma deliver_eq:
  "deliver e msg cs n w =
     (n + length (filter (\<lambda>x. snd (snd x)) (expected_writes e msg cs (length (wire w)))),
      w\<lparr>wire := wire w @ expected_writes e msg cs (length (wire w))\<rparr>)"
proof (induction cs arbitrary: n w)
  case Nil
  show ?case by simp
next
  case (Cons c cs)
  show ?case
    by (cases "write_err e (length (wire w)) c") (simp_all add: safeWriteJSON_eq Cons.IH)
qed

lemma expected_writes_targets: "map fst (expected_writes e msg cs k) = cs"
  by (induction cs arbitrary: k) simp_all

lemma expected_writes_msg: "x \<in> set (expected_writes e msg cs k) \<Longrightarrow> fst (snd x) = msg"
  by (induction cs arbitrary: k) auto

lemma expected_writes_length: "length (expected_writes e msg cs k) = length cs"
  by (induction cs arbitrary: k) simp_all

lemma expected_writes_nth:
  "i < length cs \<Longrightarrow>
     expected_writes e msg cs k ! i = (cs ! i, msg, write_err e (k + i) (cs ! i) = None)"
proof (induction cs arbitrary: k i)
  case Nil
  then show ?case by simp
next
  case (Cons c cs)
  then show ?case by (cases i) simp_all
qed

lemma deliver_fanout:
  "deliver e msg cs 0 w = (n, w') \<Longrightarrow> fanout_contract e msg cs w n w'"
  unfolding fanout_contract_def deliver_eq
  by (auto simp: expected_writes_targets expected_writes_length expected_writes_nth
      dest: expected_writes_msg
      intro!: exI[of _ "expected_writes e msg cs (length (wire w))"])

lemma fanout_nothing: "fanout_contract e msg [] w 0 w"
  by (simp add: fanout_contract_def)

text \<open>
  C3. A delivery to a membership snapshot, global (\<open>broadcastToAll\<close>) or of a room
  (\<open>broadcastToRoom\<close>), attempts one write per connection of the snapshot whatever the
  outcome of the other writes, counts exactly the writes that succeeded, and leaves the
  global client set and the room map as they were.
\<close>

theorem C3_fanout_isolates_failures:
  "(broadcastToAll e msg w = (n, w') \<longrightarrow>
      fanout_contract e msg (map fst (clients w)) w n w') \<and>
   (broadcastToRoom e room msg w = (n, w') \<longrightarrow>
      fanout_contract e msg (map fst (room_members w room)) w n w')"
proof (intro conjI impI)
  assume a: "broadcastToAll e msg w = (n, w')"
  show "fanout_contract e msg (map fst (clients w)) w n w'"
  proof (cases "clients w = []")
    case True
    with a show ?thesis by (simp add: broadcastToAll_def fanout_nothing)
  next
    case False
    with a show ?thesis by (simp add: broadcastToAll_def deliver_fanout)
  qed
next
  assume r: "broadcastToRoom e room msg w = (n, w')"
  show "fanout_contract e msg (map fst (room_members w room)) w n w'"
  proof (cases "rooms w room")
    case None
    with r show ?thesis by (simp add: broadcastToRoom_def room_members_def fanout_nothing)
  next
    case (Some m)
    with r show ?thesis
      by (cases "m = []")
        (simp_all add: broadcastToRoom_def room_members_def fanout_nothing deliver_fanout)
  qed
qed

text \<open>
  The same on the sample registry with connection 2 down: the global broadcast writes to
  1, 2 and 3 and counts 2; the broadcast to room A writes to 1 and 2 and counts 1.
\<close>

theorem C3_fanout_isolates_failures_witness:
  "broadcastToAll env_2down hello w3 =
     (2, w3\<lparr>wire := [(1, hello, True), (2, hello, False), (3, hello, True)]\<rparr>) \<and>
   fanout_contract env_2down hello [1, 2, 3] w3 2
     (w3\<lparr>wire := [(1, hello, True), (2, hello, False), (3, hello, True)]\<rparr>) \<and>
   broadcastToRoom env_2down ''A'' hello w3 =
     (1, w3\<lparr>wire := [(1, hello, True), (2, hello, False)]\<rparr>) \<and>
   fanout_contract env_2down hello [1, 2] w3 1
     (w3\<lparr>wire := [(1, hello, True), (2, hello, False)]\<rparr>)"
proof -
  have a: "broadcastToAll env_2down hello w3 =
     (2, w3\<lparr>wire := [(1, hello, True), (2, hello, False), (3, hello, True)]\<rparr>)"
    by (simp add: broadcastToAll_def safeWriteJSON_def w3_def env_2down_def env_ok_def)
  have r: "broadcastToRoom env_2down ''A'' hello w3 =
     (1, w3\<lparr>wire := [(1, hello, True), (2, hello, False)]\<rparr>)"
    by (simp add: broadcastToRoom_def room_members_def safeWriteJSON_def w3_def
        env_2down_def env_ok_def)
  have c: "map fst (clients w3) = [1, 2, 3]" "map fst (room_members w3 ''A'') = [1, 2]"
    by (simp_all add: w3_def room_members_def)
  from C3_fanout_isolates_failures [of env_2down hello w3 2 _ "''A''"] a c
  have 1: "fanout_contract env_2down hello [1, 2, 3] w3 2
     (w3\<lparr>wire := [(1, hello, True), (2, hello, False), (3, hello, True)]\<rparr>)"
    by simp
  from C3_fanout_isolates_failures [of env_2down hello w3 1 _ "''A''"] r c
  have 2: "fanout_contract env_2down hello [1, 2] w3 1
     (w3\<lparr>wire := [(1, hello, True), (2, hello, False)]\<rparr>)"
    by simp
  from a r 1 2 show ?thesis by simp
qed

section \<open>Connection registry: audiences\<close>

lemma rooms_addToRoom:
  "rooms (addToRoom c room w) = (rooms w)(room \<mapsto> AList.update c True (room_members w room))"
  by (auto simp: addToRoom_def room_members_def Let_def split: option.splits)

lemma rooms_removeFromRoom:
  "rooms (removeFromRoom c room w) =
     (if c \<in> fst ` set (room_members w room) then
        (if AList.delete c (room_members w room) = [] then (rooms w)(room := None)
         else (rooms w)(room \<mapsto> AList.delete c (room_members w room)))
      else rooms w)"
proof (cases "rooms w room")
  case None
  then show ?thesis
    by (simp add: removeFromRoom_def room_members_def conn_Close_def)
next
  case (Some m)
  then show ?thesis
    by (simp add: removeFromRoom_def room_members_def conn_Close_def Let_def
        map_of_eq_None_iff)
qed

lemma no_empty_room_addToRoom: "no_empty_room w \<Longrightarrow> no_empty_room (addToRoom c room w)"
  by (simp add: no_empty_room_def rooms_addToRoom)

lemma no_empty_room_removeFromRoom:
  "no_empty_room w \<Longrightarrow> no_empty_room (removeFromRoom c room w)"
  by (simp add: no_empty_room_def rooms_removeFromRoom)

lemma audience_addToRoom:
  "audience (addToRoom c room w) = (audience w)(room := insert c (audience w room))"
  by (rule ext) (simp add: audience_def room_members_def rooms_addToRoom AList.dom_update)

lemma keys_delete: "fst ` set (AList.delete c m) = fst ` set m - {c}"
  using AList.delete_keys[of c m] by (metis set_map set_removeAll)

lemma audience_removeFromRoom:
  "audience (removeFromRoom c room w) = (audience w)(room := audience w room - {c})"
proof (rule ext)
  fix r
  let ?m = "room_members w room"
  show "audience (removeFromRoom c room w) r = ((audience w)(room := audience w room - {c})) r"
  proof (cases "r = room")
    case False
    then show ?thesis
      by (simp add: audience_def room_members_def rooms_removeFromRoom)
  next
    case True
    show ?thesis
    proof (cases "c \<in> fst ` set ?m")
      case False
      with True show ?thesis
        by (simp add: audience_def rooms_removeFromRoom room_members_def)
    next
      case inside: True
      show ?thesis
      proof (cases "AList.delete c ?m = []")
        case True
        then have "fst ` set ?m - {c} = {}"
          using keys_delete[of c ?m] by simp
        with True inside \<open>r = room\<close> show ?thesis
          by (simp add: audience_def rooms_removeFromRoom room_members_def)
      next
        case False
        with inside \<open>r = room\<close> show ?thesis
          by (simp add: audience_def rooms_removeFromRoom room_members_def keys_delete)
      qed
    qed
  qed
qed

lemma run_ops_refines:
  "no_empty_room w \<Longrightarrow>
     no_empty_room (run_ops ops w) \<and> audience (run_ops ops w) = audience_after ops (audience w)"
proof (induction ops w rule: run_ops.induct)
  case (1 w)
  then show ?case by simp
next
  case (2 c room ops w)
  from "2.IH"[OF no_empty_room_addToRoom[OF "2.prems"]]
  show ?case by (simp only: run_ops.simps audience_after.simps audience_addToRoom)
next
  case (3 c room ops w)
  from "3.IH"[OF no_empty_room_removeFromRoom[OF "3.prems"]]
  show ?case by (simp only: run_ops.simps audience_after.simps audience_removeFromRoom)
qed

lemma entry_iff_audience:
  "no_empty_room w \<Longrightarrow> rooms w room \<noteq> None \<longleftrightarrow> audience w room \<noteq> {}"
  by (cases "rooms w room") (auto simp: no_empty_room_def audience_def room_members_def)

lemma no_empty_room_New: "no_empty_room NewWebSocketHandlers"
  by (simp add: no_empty_room_def NewWebSocketHandlers_def)

lemma audience_New: "audience NewWebSocketHandlers = (\<lambda>room. {})"
  by (rule ext) (simp add: audience_def room_members_def NewWebSocketHandlers_def)

lemma last_leaves:
  assumes "audience w room = {c}"
  shows "rooms (removeFromRoom c room w) room = None"
proof -
  from assms have "fst ` set (AList.delete c (room_members w room)) = {}"
    by (simp add: keys_delete audience_def)
  then have "AList.delete c (room_members w room) = []" by simp
  with assms show ?thesis by (simp add: rooms_removeFromRoom audience_def)
qed

lemma broadcast_no_entry: "rooms w room = None \<Longrightarrow> broadcastToRoom e room msg w = (0, w)"
  by (simp add: broadcastToRoom_def)

text \<open>
  C2. After every sequence of join and leave operations on a new registry, the room map
  has an entry for a label iff the audience's member set, as the specification's sets
  give it, is non-empty, and the entry holds exactly those members. Joining an audience
  with no members creates the entry; when the only member leaves, the entry is deleted,
  and a broadcast to that label afterwards returns normally, having written nothing.
\<close>

theorem C2_audience_entry_iff_members:
  "(rooms (run_ops ops NewWebSocketHandlers) room \<noteq> None \<longleftrightarrow>
      audience_after ops (\<lambda>room. {}) room \<noteq> {}) \<and>
   audience (run_ops ops NewWebSocketHandlers) room = audience_after ops (\<lambda>room. {}) room \<and>
   (audience w room = {} \<longrightarrow> rooms (addToRoom c room w) room = Some [(c, True)]) \<and>
   (audience w room = {c} \<longrightarrow>
      rooms (removeFromRoom c room w) room = None \<and>
      broadcastToRoom e room msg (removeFromRoom c room w) = (0, removeFromRoom c room w))"
proof -
  let ?w = "run_ops ops NewWebSocketHandlers"
  have inv: "no_empty_room ?w" and au: "audience ?w = audience_after ops (\<lambda>room. {})"
    using run_ops_refines[OF no_empty_room_New, of ops] by (simp_all add: audience_New)
  have 1: "rooms ?w room \<noteq> None \<longleftrightarrow> audience_after ops (\<lambda>room. {}) room \<noteq> {}"
    using entry_iff_audience[OF inv, of room] au by simp
  have 2: "audience ?w room = audience_after ops (\<lambda>room. {}) room"
    using au by simp
  have 3: "rooms (addToRoom c room w) room = Some [(c, True)]" if "audience w room = {}"
    using that by (simp add: rooms_addToRoom audience_def)
  have 4: "rooms (removeFromRoom c room w) room = None \<and>
      broadcastToRoom e room msg (removeFromRoom c room w) = (0, removeFromRoom c room w)"
    if "audience w room = {c}"
    using last_leaves[OF that] by (simp add: broadcast_no_entry)
  from 1 2 3 4 show ?thesis by blast
qed

text \<open>
  On a concrete run: two joins and a leave keep the entry of room R, the second leave
  deletes it.
\<close>

theorem C2_audience_entry_iff_members_witness:
  "rooms (run_ops [Join 1 ''R'', Join 2 ''R'', Leave 1 ''R''] NewWebSocketHandlers) ''R''
     = Some [(2, True)] \<and>
   audience_after [Join 1 ''R'', Join 2 ''R'', Leave 1 ''R''] (\<lambda>room. {}) ''R'' = {2} \<and>
   rooms (run_ops [Join 1 ''R'', Join 2 ''R'', Leave 1 ''R'', Leave 2 ''R'']
     NewWebSocketHandlers) ''R'' = None \<and>
   audience_after [Join 1 ''R'', Join 2 ''R'', Leave 1 ''R'', Leave 2 ''R'']
     (\<lambda>room. {}) ''R'' = {} \<and>
   audience NewWebSocketHandlers ''R'' = {} \<and>
   rooms (addToRoom 1 ''R'' NewWebSocketHandlers) ''R'' = Some [(1, True)] \<and>
   audience (addToRoom 1 ''R'' NewWebSocketHandlers) ''R'' = {1} \<and>
   rooms (removeFromRoom 1 ''R'' (addToRoom 1 ''R'' NewWebSocketHandlers)) ''R'' = None \<and>
   broadcastToRoom env_ok ''R'' hello
     (removeFromRoom 1 ''R'' (addToRoom 1 ''R'' NewWebSocketHandlers)) =
     (0, removeFromRoom 1 ''R'' (addToRoom 1 ''R'' NewWebSocketHandlers))"
proof -
  have a: "audience_after [Join 1 ''R'', Join 2 ''R'', Leave 1 ''R''] (\<lambda>room. {}) ''R'' = {2}"
    by auto
  have b: "audience_after [Join 1 ''R'', Join 2 ''R'', Leave 1 ''R'', Leave 2 ''R'']
     (\<lambda>room. {}) ''R'' = {}"
    by auto
  have c: "rooms (run_ops [Join 1 ''R'', Join 2 ''R'', Leave 1 ''R''] NewWebSocketHandlers) ''R''
     = Some [(2, True)]"
    by (simp add: rooms_addToRoom rooms_removeFromRoom room_members_def NewWebSocketHandlers_def)
  have d: "audience NewWebSocketHandlers ''R'' = {}"
    by (simp add: audience_New)
  have e: "audience (addToRoom 1 ''R'' NewWebSocketHandlers) ''R'' = {1}"
    by (simp add: audience_addToRoom audience_New)
  note t1 = C2_audience_entry_iff_members
    [of "[Join 1 ''R'', Join 2 ''R'', Leave 1 ''R'', Leave 2 ''R'']" "''R''"
        NewWebSocketHandlers 1 env_ok hello]
  note t2 = C2_audience_entry_iff_members
    [of "[]" "''R''" "addToRoom 1 ''R'' NewWebSocketHandlers" 1 env_ok hello]
  from t1 b d have 1: "rooms (run_ops [Join 1 ''R'', Join 2 ''R'', Leave 1 ''R'', Leave 2 ''R'']
     NewWebSocketHandlers) ''R'' = None"
    and 2: "rooms (addToRoom 1 ''R'' NewWebSocketHandlers) ''R'' = Some [(1, True)]"
    by simp_all
  from t2 e have 3: "rooms (removeFromRoom 1 ''R'' (addToRoom 1 ''R'' NewWebSocketHandlers)) ''R'' = None"
    and 4: "broadcastToRoom env_ok ''R'' hello
     (removeFromRoom 1 ''R'' (addToRoom 1 ''R'' NewWebSocketHandlers)) =
     (0, removeFromRoom 1 ''R'' (addToRoom 1 ''R'' NewWebSocketHandlers))"
    by simp_all
  from a b c d e 1 2 3 4 show ?thesis by simp
qed

section \<open>Session lifecycle: what the handlers do\<close>

lemma time_Now_Unix_eq: "time_Now_Unix e w = (clk e (ticks w), w\<lparr>ticks := Suc (ticks w)\<rparr>)"
  by (simp add: time_Now_Unix_def)

lemma safeReadJSON_parse_error:
  "unmarshal e data = Inl diag \<Longrightarrow>
     safeReadJSON e (ReadOK TextMessage data) w =
       (Inr \<lparr>Type = ''json_error'',
             Data = JObj [(''error'', JStr ''Invalid JSON format''), (''details'', JStr diag),
                          (''raw_data'', JStr data)],
             Timestamp = clk e (ticks w), Room = []\<rparr>,
        w\<lparr>ticks := Suc (ticks w)\<rparr>)"
  by (simp add: safeReadJSON_def time_Now_Unix_eq)




lemma broadcastToAll_eq:
  "snd (broadcastToAll e msg w) =
     w\<lparr>wire := wire w @ expected_writes e msg (map fst (clients w)) (length (wire w))\<rparr>"
  by (cases "clients w = []") (simp_all add: broadcastToAll_def deliver_eq)

lemma broadcastToRoom_eq:
  "snd (broadcastToRoom e room msg w) =
     w\<lparr>wire := wire w @ expected_writes e msg (map fst (room_members w room)) (length (wire w))\<rparr>"
proof (cases "rooms w room")
  case None
  then show ?thesis by (simp add: broadcastToRoom_def room_members_def)
next
  case (Some m)
  then show ?thesis
    by (cases "m = []") (simp_all add: broadcastToRoom_def room_members_def deliver_eq)
qed

text \<open>What one read can yield.\<close>

lemma safeReadJSON_summary:
  "(\<exists>err. safeReadJSON e rd w = (Inl err, w)) \<or>
   (\<exists>msg k. safeReadJSON e rd w = (Inr msg, w\<lparr>ticks := k\<rparr>) \<and> ticks w \<le> k \<and>
      (clk e (ticks w) \<noteq> 0 \<longrightarrow> Timestamp msg \<noteq> 0))"
proof (cases rd)
  case (ReadErr err)
  then show ?thesis by (simp add: safeReadJSON_def)
next
  case (ReadOK mt data)
  show ?thesis
  proof (cases "mt \<noteq> TextMessage")
    case True
    with ReadOK have "safeReadJSON e rd w =
        (Inr \<lparr>Type = ''error'', Data = JStr ''Binary messages not supported'',
              Timestamp = clk e (ticks w), Room = []\<rparr>, w\<lparr>ticks := Suc (ticks w)\<rparr>)"
      by (simp add: safeReadJSON_def time_Now_Unix_eq)
    then show ?thesis by (intro disjI2 exI conjI) (assumption, simp_all)
  next
    case False
    show ?thesis
    proof (cases "unmarshal e data")
      case (Inl diag)
      with False ReadOK show ?thesis
        using safeReadJSON_parse_error[of e data diag w]
        by (intro disjI2 exI conjI) (simp, simp_all)
    next
      case (Inr f)
      show ?thesis
      proof (cases "Timestamp (store_fields f) = 0")
        case True
        with Inr False ReadOK have "safeReadJSON e rd w =
            (Inr ((store_fields f)\<lparr>Timestamp := clk e (ticks w)\<rparr>), w\<lparr>ticks := Suc (ticks w)\<rparr>)"
          by (simp add: safeReadJSON_def time_Now_Unix_eq)
        then show ?thesis by (intro disjI2 exI conjI) (assumption, simp_all)
      next
        case nz: False
        with Inr False ReadOK have "safeReadJSON e rd w = (Inr (store_fields f), w\<lparr>ticks := ticks w\<rparr>)"
          by (simp add: safeReadJSON_def)
        with nz show ?thesis by (intro disjI2 exI conjI) (assumption, simp_all)
      qed
    qed
  qed
qed

lemma body_effect_refl: "body_effect e T K w w"
  unfolding body_effect_def by (intro exI[of _ "ticks w"] exI[of _ "[]"]) simp


lemma expected_writes_member:
  "x \<in> set (expected_writes e msg cs k) \<Longrightarrow> fst x \<in> set cs \<and> fst (snd x) = msg"
  by (induction cs arbitrary: k) auto


lemma Chat_body_effect:
  "body_effect e (insert ws (audience w room)) {''json_error'', ''chat''} w
     (snd (Chat_body e room ws rd w))"
proof -
  from safeReadJSON_summary[of e rd w] show ?thesis
  proof (elim disjE exE conjE)
    fix err assume "safeReadJSON e rd w = (Inl err, w)"
    then show ?thesis by (simp add: Chat_body_def body_effect_refl)
  next
    fix msg k
    assume r: "safeReadJSON e rd w = (Inr msg, w\<lparr>ticks := k\<rparr>)" and k: "ticks w \<le> k"
      and ts: "clk e (ticks w) \<noteq> 0 \<longrightarrow> Timestamp msg \<noteq> 0"
    show ?thesis
    proof (cases "Type msg = ''json_error''")
      case True
      with r k ts show ?thesis
        unfolding body_effect_def Chat_body_def
        by (intro exI[of _ k]
            exI[of _ "[(ws, msg\<lparr>Room := room\<rparr>, write_err e (length (wire w)) ws = None)]"])
          (auto simp: safeWriteJSON_eq Let_def split: option.splits)
    next
      case False
      let ?m = "\<lparr>Type = ''chat'', Data = Data msg, Timestamp = clk e k, Room = room\<rparr>"
      from False r k show ?thesis
        unfolding body_effect_def Chat_body_def
        by (intro exI[of _ "Suc k"]
            exI[of _ "expected_writes e ?m (map fst (room_members w room)) (length (wire w))"])
          (auto simp: time_Now_Unix_eq Let_def broadcastToRoom_eq audience_def room_members_def
            dest!: expected_writes_member)
    qed
  qed
qed

lemma body_effect_trans:
  assumes "body_effect e T K w w1" and "body_effect e T K w1 w2"
  shows "body_effect e T K w w2"
proof -
  from assms(1) obtain k new where 1: "w1 = w\<lparr>ticks := k, wire := wire w @ new\<rparr>" "ticks w \<le> k"
    and n1: "\<forall>x \<in> set new. fst x \<in> T \<and> Type (fst (snd x)) \<in> K \<and>
           ((\<forall>j \<ge> ticks w. clk e j \<noteq> 0) \<longrightarrow> Timestamp (fst (snd x)) \<noteq> 0)"
    unfolding body_effect_def by blast
  from assms(2) obtain k' new' where 2: "w2 = w1\<lparr>ticks := k', wire := wire w1 @ new'\<rparr>" "ticks w1 \<le> k'"
    and n2: "\<forall>x \<in> set new'. fst x \<in> T \<and> Type (fst (snd x)) \<in> K \<and>
           ((\<forall>j \<ge> ticks w1. clk e j \<noteq> 0) \<longrightarrow> Timestamp (fst (snd x)) \<noteq> 0)"
    unfolding body_effect_def by blast
  have t: "ticks w1 = k" using 1 by simp
  have "w2 = w\<lparr>ticks := k', wire := wire w @ (new @ new')\<rparr>" using 1 2 by simp
  moreover have "ticks w \<le> k'" using 1 2 t by simp
  moreover have "\<forall>x \<in> set (new @ new'). fst x \<in> T \<and> Type (fst (snd x)) \<in> K \<and>
           ((\<forall>j \<ge> ticks w. clk e j \<noteq> 0) \<longrightarrow> Timestamp (fst (snd x)) \<noteq> 0)"
    using n1 n2 t 1(2) by (auto simp: le_trans)
  ultimately show ?thesis unfolding body_effect_def by blast
qed

lemma body_effect_registry:
  assumes "body_effect e T K w w'"
  shows "clients w' = clients w \<and> rooms w' = rooms w \<and> closes w' = closes w \<and>
     audience w' = audience w"
proof -
  from assms obtain k new where w': "w' = w\<lparr>ticks := k, wire := wire w @ new\<rparr>"
    unfolding body_effect_def by blast
  then have "rooms w' = rooms w" by simp
  then have "audience w' = audience w"
    by (simp add: audience_def room_members_def fun_eq_iff)
  with w' show ?thesis by simp
qed

text \<open>What holds before a loop and is kept by every pass holds when the loop returns.\<close>

lemma read_loop_invariant:
  assumes run: "read_loop body reads i w = Some w'"
    and step: "\<And>rd x. P x \<Longrightarrow> P (snd (body rd x))"
    and init: "P w"
  shows "P w'"
proof -
  have "b = body \<longrightarrow> P x \<longrightarrow> P y" if run': "read_loop b r j x = Some y" for b r j x y
  proof (rule read_loop.raw_induct
      [where P = "\<lambda>b r j x y. b = body \<longrightarrow> P x \<longrightarrow> P y", OF _ run'])
    fix rl b r j x y
    assume IH: "\<And>b r j x y. rl b r j x = Some y \<Longrightarrow> b = body \<longrightarrow> P x \<longrightarrow> P y"
      and eq: "(case b (r j) x of (Continue, w1) \<Rightarrow> rl b r (Suc j) w1
                | (Break, w1) \<Rightarrow> Some w1) = Some y"
    show "b = body \<longrightarrow> P x \<longrightarrow> P y"
    proof (intro impI)
      assume b: "b = body" and px: "P x"
      obtain v x1 where bx: "body (r j) x = (v, x1)" by (cases "body (r j) x")
      have p1: "P x1" using step[OF px, of "r j"] bx by simp
      show "P y"
      proof (cases v)
        case Continue
        with eq b bx have "rl body r (Suc j) x1 = Some y" by simp
        from IH[OF this] p1 show ?thesis by simp
      next
        case Break
        with eq b bx have "y = x1" by simp
        with p1 show ?thesis by simp
      qed
    qed
  qed
  from this[OF run] init show ?thesis by simp
qed

text \<open>A loop returns as soon as a pass breaks.\<close>

lemma read_loop_returns:
  assumes "\<And>x. fst (body (reads (i + n)) x) = Break"
  shows "\<exists>w'. read_loop body reads i w = Some w'"
  using assms
proof (induction n arbitrary: i w)
  case 0
  obtain v w1 where b: "body (reads i) w = (v, w1)" by (cases "body (reads i) w")
  with 0[of w] have "v = Break" by simp
  with b show ?case by (subst read_loop.simps) simp
next
  case (Suc n)
  obtain v w1 where b: "body (reads i) w = (v, w1)" by (cases "body (reads i) w")
  show ?case
  proof (cases v)
    case Break
    with b show ?thesis by (subst read_loop.simps) simp
  next
    case Continue
    from Suc.IH[of "Suc i" w1] Suc.prems obtain w' where "read_loop body reads (Suc i) w1 = Some w'"
      by auto
    with b Continue show ?thesis by (subst read_loop.simps) simp
  qed
qed

lemma addToRoom_eq:
  "addToRoom c room w =
     w\<lparr>rooms := (rooms w)(room \<mapsto> AList.update c True (room_members w room))\<rparr>"
  by (cases "rooms w room") (simp_all add: addToRoom_def room_members_def Let_def)

lemma removeFromRoom_frame:
  "wire (removeFromRoom c room w) = wire w \<and> clients (removeFromRoom c room w) = clients w \<and>
   ticks (removeFromRoom c room w) = ticks w \<and> closes (removeFromRoom c room w) = closes w @ [(c, length (wire w))]"
  by (simp add: removeFromRoom_def conn_Close_def Let_def)

lemma Chat_open_eq:
  "Chat_open e room ws w =
     w\<lparr>rooms := (rooms w)(room \<mapsto> AList.update ws True (room_members w room)),
       ticks := Suc (Suc (ticks w)),
       wire := wire w @
         (ws, \<lparr>Type = ''welcome'',
               Data = JObj [(''message'',
                 JStr (''Connected to room '' @ room @ ''. Send JSON messages to chat.''))],
               Timestamp = clk e (ticks w), Room = room\<rparr>,
          write_err e (length (wire w)) ws = None) #
         expected_writes e
           \<lparr>Type = ''join'', Data = JObj [(''message'', JStr (''User joined room '' @ room))],
            Timestamp = clk e (Suc (ticks w)), Room = room\<rparr>
           (map fst (AList.update ws True (room_members w room))) (Suc (length (wire w)))\<rparr>"
  by (simp add: Chat_open_def addToRoom_eq time_Now_Unix_eq safeWriteJSON_eq broadcastToRoom_eq
      room_members_def Let_def)

lemma Chat_close_eq:
  "Chat_close e room ws w =
     removeFromRoom ws room
       (w\<lparr>ticks := Suc (ticks w),
          wire := wire w @ expected_writes e
            \<lparr>Type = ''leave'', Data = JObj [(''message'', JStr (''User left room '' @ room))],
             Timestamp = clk e (ticks w), Room = room\<rparr>
            (map fst (room_members w room)) (length (wire w))\<rparr>)"
  by (simp add: Chat_close_def time_Now_Unix_eq broadcastToRoom_eq room_members_def Let_def)

lemma sent_during_Chat_close:
  "sent_during w (Chat_close e room ws w) =
     expected_writes e
       \<lparr>Type = ''leave'', Data = JObj [(''message'', JStr (''User left room '' @ room))],
        Timestamp = clk e (ticks w), Room = room\<rparr>
       (map fst (room_members w room)) (length (wire w))"
  by (simp add: Chat_close_eq sent_during_def removeFromRoom_frame)

lemma audience_ticks_wire [simp]:
  "audience (w\<lparr>ticks := k, wire := ws\<rparr>) = audience w"
  by (simp add: audience_def room_members_def fun_eq_iff)

text \<open>
  C6, as the code has it. When a chat session closes, the leave notice is broadcast
  first, to every connection in the room's member map at that moment, in order; the
  closing connection is one of them as long as it is still a member. Only after that is
  the connection removed from the room and its transport closed: the close is logged
  with all the writes of the notice made before it. A session that returns has run
  exactly this after its loop.
\<close>

theorem C6_leave_notice_precedes_removal:
  assumes "leaveMsg = \<lparr>Type = ''leave'',
      Data = JObj [(''message'', JStr (''User left room '' @ room))],
      Timestamp = clk e (ticks w), Room = room\<rparr>"
  shows "sent_during w (Chat_close e room ws w) =
      expected_writes e leaveMsg (map fst (room_members w room)) (length (wire w)) \<and>
    map fst (sent_during w (Chat_close e room ws w)) = map fst (room_members w room) \<and>
    (ws \<in> audience w room \<longrightarrow> received_by ws w (Chat_close e room ws w) \<noteq> []) \<and>
    audience (Chat_close e room ws w) room = audience w room - {ws} \<and>
    closes (Chat_close e room ws w) =
      closes w @ [(ws, length (wire w) + length (room_members w room))] \<and>
    length (wire (Chat_close e room ws w)) = length (wire w) + length (room_members w room) \<and>
    (Chat e room ws w0 = Some (Returned, w') \<longrightarrow>
       (\<exists>w1. read_loop (Chat_body e room ws) (recv e ws) 0 (Chat_open e room ws w0) = Some w1 \<and>
          w' = Chat_close e room ws w1))"
proof -
  have s: "sent_during w (Chat_close e room ws w) =
      expected_writes e leaveMsg (map fst (room_members w room)) (length (wire w))"
    using assms by (simp add: sent_during_Chat_close)
  then have m: "map fst (sent_during w (Chat_close e room ws w)) = map fst (room_members w room)"
    by (simp add: expected_writes_targets)
  have r: "received_by ws w (Chat_close e room ws w) \<noteq> []" if "ws \<in> audience w room"
  proof -
    from that m have "ws \<in> set (map fst (sent_during w (Chat_close e room ws w)))"
      by (simp add: audience_def)
    then show ?thesis
      by (auto simp: received_by_def filter_empty_conv)
  qed
  have a: "audience (Chat_close e room ws w) room = audience w room - {ws}"
    by (simp add: Chat_close_eq audience_removeFromRoom)
  have c: "closes (Chat_close e room ws w) =
      closes w @ [(ws, length (wire w) + length (room_members w room))]"
    by (simp add: Chat_close_eq removeFromRoom_frame expected_writes_length)
  have h: "\<exists>w1. read_loop (Chat_body e room ws) (recv e ws) 0 (Chat_open e room ws w0) = Some w1 \<and>
          w' = Chat_close e room ws w1"
    if "Chat e room ws w0 = Some (Returned, w')"
    using that by (auto simp: Chat_def split: if_splits option.splits)
  have n: "length (wire (Chat_close e room ws w)) =
      length (wire w) + length (room_members w room)"
    by (simp add: Chat_close_eq removeFromRoom_frame expected_writes_length)
  from s m r a c n h show ?thesis by blast
qed

text \<open>
  C6 as the specification states it fails: connection 3, the only member of room B,
  closes its session and is itself sent the leave notice. Had it been removed first, the
  room would have no entry and nothing would be written.
\<close>

theorem C6_departing_connection_is_notified:
  "received_by 3 w3 (Chat_close env_ok ''B'' 3 w3) =
     [(3, \<lparr>Type = ''leave'', Data = JObj [(''message'', JStr ''User left room B'')],
           Timestamp = 1700000000, Room = ''B''\<rparr>, True)]"
  by (simp add: received_by_def sent_during_Chat_close w3_def env_ok_def room_members_def)

lemma Chat_loop_effect:
  assumes "read_loop (Chat_body e room ws) reads i w = Some w'"
  shows "body_effect e (insert ws (audience w room)) {''json_error'', ''chat''} w w'"
proof (rule read_loop_invariant[OF assms])
  show "body_effect e (insert ws (audience w room)) {''json_error'', ''chat''} w w"
    by (rule body_effect_refl)
next
  fix rd x
  assume x: "body_effect e (insert ws (audience w room)) {''json_error'', ''chat''} w x"
  then have "audience x = audience w" by (simp add: body_effect_registry)
  with Chat_body_effect[of e ws x room rd]
  have "body_effect e (insert ws (audience w room)) {''json_error'', ''chat''} x
      (snd (Chat_body e room ws rd x))"
    by simp
  with x show "body_effect e (insert ws (audience w room)) {''json_error'', ''chat''} w
      (snd (Chat_body e room ws rd x))"
    by (rule body_effect_trans)
qed

lemma filter_kind_expected_writes:
  "filter (\<lambda>x. Type (fst (snd x)) = kind) (expected_writes e msg cs k) =
     (if Type msg = kind then expected_writes e msg cs k else [])"
  by (induction cs arbitrary: k) simp_all

text \<open>
  A chat session from its start to its return: the welcome, the join notices, what the
  loop wrote, and the leave notices, in this order.
\<close>

lemma Chat_session:
  assumes "Chat e room ws w = Some (Returned, w')"
  shows "\<exists>first joins looped leaves.
     sent_during w w' = first # joins @ looped @ leaves \<and>
     fst first = ws \<and> Type (fst (snd first)) = ''welcome'' \<and>
     map fst joins = map fst (AList.update ws True (room_members w room)) \<and>
     (\<forall>x \<in> set joins. Type (fst (snd x)) = ''join'') \<and>
     (\<forall>x \<in> set looped. fst x \<in> insert ws (audience w room) \<and>
        Type (fst (snd x)) \<in> {''json_error'', ''chat''}) \<and>
     map fst leaves = map fst (AList.update ws True (room_members w room)) \<and>
     (\<forall>x \<in> set leaves. Type (fst (snd x)) = ''leave'')"
proof -
  let ?wo = "Chat_open e room ws w"
  let ?M = "map fst (AList.update ws True (room_members w room))"
  define hail where "hail = \<lparr>Type = ''welcome'',
             Data = JObj [(''message'',
               JStr (''Connected to room '' @ room @ ''. Send JSON messages to chat.''))],
             Timestamp = clk e (ticks w), Room = room\<rparr>"
  define joinMsg where "joinMsg =
     \<lparr>Type = ''join'', Data = JObj [(''message'', JStr (''User joined room '' @ room))],
      Timestamp = clk e (Suc (ticks w)), Room = room\<rparr>"
  define joins where "joins = expected_writes e joinMsg ?M (Suc (length (wire w)))"
  from assms obtain w1 where loop: "read_loop (Chat_body e room ws) (recv e ws) 0 ?wo = Some w1"
    and w': "w' = Chat_close e room ws w1"
    by (auto simp: Chat_def split: if_splits option.splits)
  define leaveMsg where "leaveMsg =
     \<lparr>Type = ''leave'', Data = JObj [(''message'', JStr (''User left room '' @ room))],
      Timestamp = clk e (ticks w1), Room = room\<rparr>"
  define leaves where "leaves = expected_writes e leaveMsg ?M (length (wire w1))"
  have wo: "?wo = w\<lparr>rooms := (rooms w)(room \<mapsto> AList.update ws True (room_members w room)),
       ticks := Suc (Suc (ticks w)),
       wire := wire w @ (ws, hail, write_err e (length (wire w)) ws = None) # joins\<rparr>"
    unfolding hail_def joinMsg_def joins_def by (rule Chat_open_eq)
  have mo: "room_members ?wo room = AList.update ws True (room_members w room)"
    by (simp add: wo room_members_def)
  then have ao: "audience ?wo room = insert ws (audience w room)"
    by (simp add: audience_def AList.dom_update)
  from Chat_loop_effect[OF loop] ao obtain k looped
    where w1: "w1 = ?wo\<lparr>ticks := k, wire := wire ?wo @ looped\<rparr>"
      and l: "\<forall>x \<in> set looped. fst x \<in> insert ws (audience w room) \<and>
        Type (fst (snd x)) \<in> {''json_error'', ''chat''}"
    unfolding body_effect_def by auto
  have m1: "room_members w1 room = AList.update ws True (room_members w room)"
    using w1 mo by (simp add: room_members_def)
  have "wire w' = wire w1 @ leaves"
    unfolding w' leaves_def leaveMsg_def Chat_close_eq
    by (simp add: removeFromRoom_frame m1)
  moreover have "wire w1 = wire w @ (ws, hail, write_err e (length (wire w)) ws = None) #
      joins @ looped"
    by (simp add: w1 wo)
  ultimately have sd: "sent_during w w' =
      (ws, hail, write_err e (length (wire w)) ws = None) # joins @ looped @ leaves"
    by (simp add: sent_during_def)
  have j: "map fst joins = ?M" "\<forall>x \<in> set joins. Type (fst (snd x)) = ''join''"
    unfolding joins_def
    by (auto simp: expected_writes_targets joinMsg_def dest: expected_writes_msg)
  have v: "map fst leaves = ?M" "\<forall>x \<in> set leaves. Type (fst (snd x)) = ''leave''"
    unfolding leaves_def
    by (auto simp: expected_writes_targets leaveMsg_def dest: expected_writes_msg)
  have f: "Type hail = ''welcome''" by (simp add: hail_def)
  from sd j v l f show ?thesis
    by (intro exI[of _ "(ws, hail, write_err e (length (wire w)) ws = None)"]
        exI[of _ joins] exI[of _ looped] exI[of _ leaves]) simp
qed

lemma count_at_most_once:
  "distinct (map f xs) \<Longrightarrow> length (filter (\<lambda>x. f x = c) xs) \<le> 1"
proof (induction xs)
  case Nil
  then show ?case by simp
next
  case (Cons x xs)
  show ?case
  proof (cases "f x = c")
    case True
    from Cons.prems have "f x \<notin> f ` set xs" by simp
    with True have "\<forall>y \<in> set xs. f y \<noteq> c" by blast
    then have "filter (\<lambda>x. f x = c) xs = []"
      by (simp add: filter_empty_conv)
    with True show ?thesis by simp
  next
    case False
    with Cons show ?thesis by simp
  qed
qed

lemma Chat_leave_notices:
  assumes "Chat e room ws w = Some (Returned, w')"
  shows "map fst (filter (\<lambda>x. Type (fst (snd x)) = ''leave'') (sent_during w w')) =
     map fst (AList.update ws True (room_members w room))"
proof -
  from Chat_session[OF assms] obtain first joins looped leaves where
    sd: "sent_during w w' = first # joins @ looped @ leaves"
    and f: "Type (fst (snd first)) = ''welcome''"
    and j: "\<forall>x \<in> set joins. Type (fst (snd x)) = ''join''"
    and l: "\<forall>x \<in> set looped. fst x \<in> insert ws (audience w room) \<and>
        Type (fst (snd x)) \<in> {''json_error'', ''chat''}"
    and v: "map fst leaves = map fst (AList.update ws True (room_members w room))"
       "\<forall>x \<in> set leaves. Type (fst (snd x)) = ''leave''"
    by blast
  from j have 1: "filter (\<lambda>x. Type (fst (snd x)) = ''leave'') joins = []"
    by (auto simp: filter_empty_conv)
  from l have 2: "filter (\<lambda>x. Type (fst (snd x)) = ''leave'') looped = []"
    by (auto simp: filter_empty_conv)
  from v(2) have 3: "filter (\<lambda>x. Type (fst (snd x)) = ''leave'') leaves = leaves"
    by (simp add: filter_id_conv)
  from f 1 2 3 v(1) show ?thesis unfolding sd by simp
qed

lemma Chat_targets:
  assumes "Chat e room ws w = Some (Returned, w')"
  shows "fst ` set (sent_during w w') \<subseteq> insert ws (audience w room)"
proof -
  from Chat_session[OF assms] obtain first joins looped leaves where
    sd: "sent_during w w' = first # joins @ looped @ leaves"
    and f: "fst first = ws"
    and j: "map fst joins = map fst (AList.update ws True (room_members w room))"
    and l: "\<forall>x \<in> set looped. fst x \<in> insert ws (audience w room) \<and>
        Type (fst (snd x)) \<in> {''json_error'', ''chat''}"
    and v: "map fst leaves = map fst (AList.update ws True (room_members w room))"
    by blast
  have "set (map fst (AList.update ws True (room_members w room))) = insert ws (audience w room)"
    by (simp add: audience_def AList.dom_update)
  with j v have "fst ` set joins = insert ws (audience w room)"
    "fst ` set leaves = insert ws (audience w room)"
    by (metis set_map)+
  with f l show ?thesis unfolding sd by auto
qed

lemma Chat_returns:
  assumes "recv e ws n = ReadErr err"
  shows "Chat e room ws w \<noteq> None"
proof -
  have "fst (Chat_body e room ws (recv e ws (0 + n)) x) = Break" for x
    using assms by (simp add: Chat_body_def safeReadJSON_def)
  from read_loop_returns[of "Chat_body e room ws" "recv e ws" 0 n, OF this]
  obtain w1 where "read_loop (Chat_body e room ws) (recv e ws) 0 (Chat_open e room ws w) = Some w1"
    by blast
  then show ?thesis by (simp add: Chat_def split: option.splits)
qed

lemma removeClient_absent: "c \<notin> fst ` set (clients w) \<Longrightarrow> removeClient c w = w"
  by (simp add: removeClient_def map_of_eq_None_iff)

lemma removeClient_twice: "removeClient c (removeClient c w) = removeClient c w"
proof (cases "c \<in> fst ` set (clients w)")
  case False
  then show ?thesis by (simp add: removeClient_absent)
next
  case True
  have "c \<notin> fst ` set (clients (removeClient c w))"
    using True by (simp add: removeClient_def conn_Close_def map_of_eq_None_iff keys_delete)
  then show ?thesis by (rule removeClient_absent)
qed

lemma removeFromRoom_absent:
  "c \<notin> audience w room \<Longrightarrow> rooms (removeFromRoom c room w) = rooms w"
  by (simp add: rooms_removeFromRoom audience_def)

text \<open>
  C9. Deregistering a connection that is not in the global set changes nothing, and
  closes no transport; so deregistering twice is deregistering once. Removing a
  connection that is not in an audience leaves the room map (and the global set) as it
  was; so does a second removal. A chat session returns once a read fails, and a
  session that has returned has sent its leave notice in one pass over the room's
  members: no connection is sent it twice.
\<close>

theorem C9_second_close_changes_nothing:
  "(c \<notin> fst ` set (clients w) \<longrightarrow> removeClient c w = w) \<and>
   removeClient c (removeClient c w) = removeClient c w \<and>
   (c \<notin> audience w room \<longrightarrow>
      rooms (removeFromRoom c room w) = rooms w \<and>
      clients (removeFromRoom c room w) = clients w) \<and>
   rooms (removeFromRoom c room (removeFromRoom c room w)) = rooms (removeFromRoom c room w) \<and>
   (recv e ws n = ReadErr err \<longrightarrow> Chat e room ws w \<noteq> None) \<and>
   (Chat e room ws w = Some (Returned, w') \<longrightarrow>
      map fst (filter (\<lambda>x. Type (fst (snd x)) = ''leave'') (sent_during w w')) =
        map fst (AList.update ws True (room_members w room)) \<and>
      (distinct (map fst (room_members w room)) \<longrightarrow>
         length (filter (\<lambda>x. Type (fst (snd x)) = ''leave'') (received_by c w w')) \<le> 1))"
proof -
  have 3: "rooms (removeFromRoom c room w) = rooms w \<and>
      clients (removeFromRoom c room w) = clients w" if "c \<notin> audience w room"
    using that by (simp add: removeFromRoom_absent removeFromRoom_frame)
  have "c \<notin> audience (removeFromRoom c room w) room"
    by (simp add: audience_removeFromRoom)
  then have 4: "rooms (removeFromRoom c room (removeFromRoom c room w)) =
      rooms (removeFromRoom c room w)"
    by (rule removeFromRoom_absent)
  have 6: "map fst (filter (\<lambda>x. Type (fst (snd x)) = ''leave'') (sent_during w w')) =
        map fst (AList.update ws True (room_members w room)) \<and>
      (distinct (map fst (room_members w room)) \<longrightarrow>
         length (filter (\<lambda>x. Type (fst (snd x)) = ''leave'') (received_by c w w')) \<le> 1)"
    if run: "Chat e room ws w = Some (Returned, w')"
  proof (intro conjI impI)
    show m: "map fst (filter (\<lambda>x. Type (fst (snd x)) = ''leave'') (sent_during w w')) =
        map fst (AList.update ws True (room_members w room))"
      by (rule Chat_leave_notices[OF run])
    assume "distinct (map fst (room_members w room))"
    then have "distinct (map fst (AList.update ws True (room_members w room)))"
      by (rule AList.distinct_update)
    with m have "distinct (map fst (filter (\<lambda>x. Type (fst (snd x)) = ''leave'')
        (sent_during w w')))"
      by simp
    from count_at_most_once[OF this, of c]
    have "length (filter (\<lambda>x. fst x = c) (filter (\<lambda>x. Type (fst (snd x)) = ''leave'')
        (sent_during w w'))) \<le> 1" .
    moreover have "filter (\<lambda>x. Type (fst (snd x)) = ''leave'') (received_by c w w') =
        filter (\<lambda>x. fst x = c) (filter (\<lambda>x. Type (fst (snd x)) = ''leave'')
          (sent_during w w'))"
      by (simp add: received_by_def conj_commute)
    ultimately show "length (filter (\<lambda>x. Type (fst (snd x)) = ''leave'')
        (received_by c w w')) \<le> 1"
      by simp
  qed
  from 3 4 6 removeClient_absent[of c w] removeClient_twice[of c w]
    Chat_returns[of e ws n err room w]
  show ?thesis by blast
qed

text \<open>
  C8. A connection that is not a member of audience \<open>a\<close> is written to neither by a
  broadcast to \<open>a\<close>, whose writes go to exactly the members of \<open>a\<close>, nor by a pass of
  the loop of another connection's chat session in \<open>a\<close>, nor by such a session as a
  whole, from its welcome to its leave notice.
\<close>

theorem C8_room_isolation:
  assumes "c \<notin> audience w a"
  shows "received_by c w (snd (broadcastToRoom e a msg w)) = [] \<and>
    map fst (sent_during w (snd (broadcastToRoom e a msg w))) = map fst (room_members w a) \<and>
    (c \<noteq> ws \<longrightarrow> received_by c w (snd (Chat_body e a ws rd w)) = []) \<and>
    (c \<noteq> ws \<longrightarrow> Chat e a ws w = Some (Returned, w') \<longrightarrow> received_by c w w' = [])"
proof -
  have s: "sent_during w (snd (broadcastToRoom e a msg w)) =
      expected_writes e msg (map fst (room_members w a)) (length (wire w))"
    by (simp add: broadcastToRoom_eq sent_during_def)
  then have 2: "map fst (sent_during w (snd (broadcastToRoom e a msg w))) =
      map fst (room_members w a)"
    by (simp add: expected_writes_targets)
  then have "fst ` set (sent_during w (snd (broadcastToRoom e a msg w))) = audience w a"
    unfolding audience_def by (metis set_map)
  with assms have 1: "received_by c w (snd (broadcastToRoom e a msg w)) = []"
    by (auto simp: received_by_def filter_empty_conv)
  have 3: "received_by c w (snd (Chat_body e a ws rd w)) = []" if "c \<noteq> ws"
  proof -
    from Chat_body_effect[of e ws w a rd] obtain k new
      where w': "snd (Chat_body e a ws rd w) = w\<lparr>ticks := k, wire := wire w @ new\<rparr>"
        and n: "\<forall>x \<in> set new. fst x \<in> insert ws (audience w a)"
      unfolding body_effect_def by blast
    from w' have "sent_during w (snd (Chat_body e a ws rd w)) = new"
      by (simp add: sent_during_def)
    with n that assms show ?thesis
      by (auto simp: received_by_def filter_empty_conv)
  qed
  have 4: "received_by c w w' = []" if "c \<noteq> ws" and "Chat e a ws w = Some (Returned, w')"
    using Chat_targets[OF that(2)] that(1) assms
    by (auto simp: received_by_def filter_empty_conv)
  from 1 2 3 4 show ?thesis by blast
qed



text \<open>
  C7. A binary frame is decoded to an envelope of kind \<open>error\<close>, not to a read error. The
  handlers test for \<open>json_error\<close> only, so the notice takes the path of an ordinary
  message: on the broadcast endpoint its text is written to every registered client, on
  the chat endpoint to every member of the room, on the echo endpoint to the sender as
  an \<open>echo\<close>. Evaluated on the sample registry, connection 1 sending.
\<close>

theorem C7_binary_notice_is_fanned_out:
  "safeReadJSON env_ok (ReadOK BinaryMessage [CHR 0x01, CHR 0x02]) w3 =
     (Inr \<lparr>Type = ''error'', Data = JStr ''Binary messages not supported'',
           Timestamp = 1700000000, Room = []\<rparr>, w3\<lparr>ticks := 1\<rparr>) \<and>
   Broadcast_body env_ok 1 (ReadOK BinaryMessage [CHR 0x01, CHR 0x02]) w3 =
     (Continue, w3\<lparr>ticks := 2, wire :=
        [(1, \<lparr>Type = ''broadcast'', Data = JStr ''Binary messages not supported'',
               Timestamp = 1700000001, Room = []\<rparr>, True),
         (2, \<lparr>Type = ''broadcast'', Data = JStr ''Binary messages not supported'',
               Timestamp = 1700000001, Room = []\<rparr>, True),
         (3, \<lparr>Type = ''broadcast'', Data = JStr ''Binary messages not supported'',
               Timestamp = 1700000001, Room = []\<rparr>, True)]\<rparr>) \<and>
   Chat_body env_ok ''A'' 1 (ReadOK BinaryMessage [CHR 0x01, CHR 0x02]) w3 =
     (Continue, w3\<lparr>ticks := 2, wire :=
        [(1, \<lparr>Type = ''chat'', Data = JStr ''Binary messages not supported'',
               Timestamp = 1700000001, Room = ''A''\<rparr>, True),
         (2, \<lparr>Type = ''chat'', Data = JStr ''Binary messages not supported'',
               Timestamp = 1700000001, Room = ''A''\<rparr>, True)]\<rparr>) \<and>
   Echo_body env_ok 1 (ReadOK BinaryMessage [CHR 0x01, CHR 0x02]) w3 =
     (Continue, w3\<lparr>ticks := 2, wire :=
        [(1, \<lparr>Type = ''echo'', Data = JStr ''Binary messages not supported'',
               Timestamp = 1700000001, Room = []\<rparr>, True)]\<rparr>)"
proof -
  have r: "safeReadJSON env_ok (ReadOK BinaryMessage [CHR 0x01, CHR 0x02]) w3 =
     (Inr \<lparr>Type = ''error'', Data = JStr ''Binary messages not supported'',
           Timestamp = 1700000000, Room = []\<rparr>, w3\<lparr>ticks := 1\<rparr>)"
    by (simp add: safeReadJSON_def BinaryMessage_def TextMessage_def time_Now_Unix_eq
        env_ok_def w3_def)
  have b: "Broadcast_body env_ok 1 (ReadOK BinaryMessage [CHR 0x01, CHR 0x02]) w3 =
     (Continue, w3\<lparr>ticks := 2, wire :=
        [(1, \<lparr>Type = ''broadcast'', Data = JStr ''Binary messages not supported'',
               Timestamp = 1700000001, Room = []\<rparr>, True),
         (2, \<lparr>Type = ''broadcast'', Data = JStr ''Binary messages not supported'',
               Timestamp = 1700000001, Room = []\<rparr>, True),
         (3, \<lparr>Type = ''broadcast'', Data = JStr ''Binary messages not supported'',
               Timestamp = 1700000001, Room = []\<rparr>, True)]\<rparr>)"
    unfolding Broadcast_body_def r
    by (simp add: time_Now_Unix_eq broadcastToAll_eq env_ok_def w3_def)
  have c: "Chat_body env_ok ''A'' 1 (ReadOK BinaryMessage [CHR 0x01, CHR 0x02]) w3 =
     (Continue, w3\<lparr>ticks := 2, wire :=
        [(1, \<lparr>Type = ''chat'', Data = JStr ''Binary messages not supported'',
               Timestamp = 1700000001, Room = ''A''\<rparr>, True),
         (2, \<lparr>Type = ''chat'', Data = JStr ''Binary messages not supported'',
               Timestamp = 1700000001, Room = ''A''\<rparr>, True)]\<rparr>)"
    unfolding Chat_body_def r
    by (simp add: time_Now_Unix_eq broadcastToRoom_eq room_members_def env_ok_def w3_def)
  have e: "Echo_body env_ok 1 (ReadOK BinaryMessage [CHR 0x01, CHR 0x02]) w3 =
     (Continue, w3\<lparr>ticks := 2, wire :=
        [(1, \<lparr>Type = ''echo'', Data = JStr ''Binary messages not supported'',
               Timestamp = 1700000001, Room = []\<rparr>, True)]\<rparr>)"
    unfolding Echo_body_def r
    by (simp add: time_Now_Unix_eq safeWriteJSON_eq env_ok_def w3_def)
  from r b c e show ?thesis by simp
qed


text \<open>
  Connection 1 leaves room A of the sample registry: the notice goes to 1 and 2, then 1
  is removed and closed.
\<close>

theorem C6_leave_notice_precedes_removal_witness:
  "sent_during w3 (Chat_close env_ok ''A'' 1 w3) =
     [(1, \<lparr>Type = ''leave'', Data = JObj [(''message'', JStr ''User left room A'')],
           Timestamp = 1700000000, Room = ''A''\<rparr>, True),
      (2, \<lparr>Type = ''leave'', Data = JObj [(''message'', JStr ''User left room A'')],
           Timestamp = 1700000000, Room = ''A''\<rparr>, True)] \<and>
   1 \<in> audience w3 ''A'' \<and>
   received_by 1 w3 (Chat_close env_ok ''A'' 1 w3) \<noteq> [] \<and>
   audience (Chat_close env_ok ''A'' 1 w3) ''A'' = {2} \<and>
   closes (Chat_close env_ok ''A'' 1 w3) = [(1, 2)] \<and>
   length (wire (Chat_close env_ok ''A'' 1 w3)) = 2 \<and>
   Chat env_ok ''A'' 1 w3 =
     Some (Returned, Chat_close env_ok ''A'' 1 (Chat_open env_ok ''A'' 1 w3))"
proof -
  have a: "audience w3 ''A'' = {1, 2}" "map fst (room_members w3 ''A'') = [1, 2]"
    "closes w3 = []" "wire w3 = []" "clk env_ok (ticks w3) = 1700000000"
    "length (room_members w3 ''A'') = 2"
    by (auto simp: audience_def room_members_def w3_def env_ok_def)
  have w: "write_err env_ok n c = None" for n c
    by (simp add: env_ok_def)
  have l: "read_loop (Chat_body env_ok r c) (recv env_ok c) 0 x = Some x" for r c x
    by (subst read_loop.simps) (simp add: Chat_body_def safeReadJSON_def env_ok_def)
  have u: "upgrade env_ok c = None" for c
    by (simp add: env_ok_def)
  have c: "Chat env_ok ''A'' 1 w3 =
     Some (Returned, Chat_close env_ok ''A'' 1 (Chat_open env_ok ''A'' 1 w3))"
    by (simp add: Chat_def l u)
  from C6_leave_notice_precedes_removal
    [OF refl, where e = env_ok and room = "''A''" and w = w3 and ws = 1 and ?w0.0 = w3] a w c
  show ?thesis by auto
qed

lemma loop_breaks_at_once:
  "recv e c 0 = ReadErr err \<Longrightarrow> read_loop (Chat_body e r c) (recv e c) 0 x = Some x"
  by (subst read_loop.simps) (simp add: Chat_body_def safeReadJSON_def)

text \<open>
  Connection 3 is in room B only; connection 1 chats in room A.
\<close>

theorem C8_room_isolation_witness:
  \<open>3 \<notin> audience w3 ''A'' \<and> 3 \<in> audience w3 ''B'' \<and>
   map fst (sent_during w3 (snd (broadcastToRoom env_json ''A'' hello w3))) = [1, 2] \<and>
   received_by 3 w3 (snd (broadcastToRoom env_json ''A'' hello w3)) = [] \<and>
   map fst (sent_during w3
     (snd (Chat_body env_json ''A'' 1 (ReadOK TextMessage ''{"data":"hi"}'') w3))) = [1, 2] \<and>
   received_by 3 w3
     (snd (Chat_body env_json ''A'' 1 (ReadOK TextMessage ''{"data":"hi"}'') w3)) = [] \<and>
   Chat env_json ''A'' 1 w3 =
     Some (Returned, Chat_close env_json ''A'' 1 (Chat_open env_json ''A'' 1 w3)) \<and>
   received_by 3 w3 (Chat_close env_json ''A'' 1 (Chat_open env_json ''A'' 1 w3)) = []\<close>
proof -
  have a: "3 \<notin> audience w3 ''A''" "3 \<in> audience w3 ''B''"
    "map fst (room_members w3 ''A'') = [1, 2]"
    by (auto simp: audience_def room_members_def w3_def)
  have r: "recv env_json c 0 = ReadErr ''EOF''" and u: "upgrade env_json c = None" for c
    by (simp_all add: env_json_def env_ok_def)
  have c: "Chat env_json ''A'' 1 w3 =
     Some (Returned, Chat_close env_json ''A'' 1 (Chat_open env_json ''A'' 1 w3))"
    by (simp add: Chat_def loop_breaks_at_once[OF r] u)
  have b: \<open>map fst (sent_during w3
     (snd (Chat_body env_json ''A'' 1 (ReadOK TextMessage ''{"data":"hi"}'') w3))) = [1, 2]\<close>
    by (simp add: Chat_body_def safeReadJSON_def TextMessage_def env_json_def env_ok_def
        store_fields_def zero_Message_def time_Now_Unix_eq broadcastToRoom_eq sent_during_def
        room_members_def w3_def)
  from C8_room_isolation [OF a(1), where e = env_json and msg = hello and ws = 1
      and rd = \<open>ReadOK TextMessage ''{"data":"hi"}''\<close>] a b c
  show ?thesis by simp
qed

text \<open>
  On the sample registry: connection 4 was never registered, connection 3 is not in
  room A, and the session of connection 1 in room A sends its leave notice to 1 and 2.
\<close>

theorem C9_second_close_changes_nothing_witness:
  "4 \<notin> fst ` set (clients w3) \<and> removeClient 4 w3 = w3 \<and>
   removeClient 1 w3 = w3\<lparr>clients := [(2, True), (3, True)], closes := [(1, 0)]\<rparr> \<and>
   removeClient 1 (removeClient 1 w3) = removeClient 1 w3 \<and>
   3 \<notin> audience w3 ''A'' \<and> rooms (removeFromRoom 3 ''A'' w3) = rooms w3 \<and>
   recv env_ok 1 0 = ReadErr ''EOF'' \<and>
   Chat env_ok ''A'' 1 w3 =
     Some (Returned, Chat_close env_ok ''A'' 1 (Chat_open env_ok ''A'' 1 w3)) \<and>
   map fst (filter (\<lambda>x. Type (fst (snd x)) = ''leave'')
     (sent_during w3 (Chat_close env_ok ''A'' 1 (Chat_open env_ok ''A'' 1 w3)))) = [1, 2] \<and>
   distinct (map fst (room_members w3 ''A'')) \<and>
   length (filter (\<lambda>x. Type (fst (snd x)) = ''leave'')
     (received_by 2 w3 (Chat_close env_ok ''A'' 1 (Chat_open env_ok ''A'' 1 w3)))) \<le> 1"
proof -
  have a: "4 \<notin> fst ` set (clients w3)" "3 \<notin> audience w3 ''A''"
    "distinct (map fst (room_members w3 ''A''))"
    "map fst (AList.update 1 True (room_members w3 ''A'')) = [1, 2]"
    by (auto simp: audience_def room_members_def w3_def)
  have r: "recv env_ok c 0 = ReadErr ''EOF''" and u: "upgrade env_ok c = None" for c
    by (simp_all add: env_ok_def)
  have c: "Chat env_ok ''A'' 1 w3 =
     Some (Returned, Chat_close env_ok ''A'' 1 (Chat_open env_ok ''A'' 1 w3))"
    by (simp add: Chat_def loop_breaks_at_once[OF r] u)
  have d: "removeClient 1 w3 = w3\<lparr>clients := [(2, True), (3, True)], closes := [(1, 0)]\<rparr>"
    by (simp add: removeClient_def conn_Close_def w3_def)
  from C9_second_close_changes_nothing
    [where c = 4 and w = w3 and e = env_ok and ws = 1 and room = "''A''" and n = 0]
  have 1: "removeClient 4 w3 = w3" using a by simp
  from C9_second_close_changes_nothing
    [where c = 1 and w = w3 and e = env_ok and ws = 1 and room = "''A''" and n = 0]
  have 2: "removeClient 1 (removeClient 1 w3) = removeClient 1 w3" by simp
  from C9_second_close_changes_nothing
    [where c = 3 and w = w3 and e = env_ok and ws = 1 and room = "''A''" and n = 0]
  have 3: "rooms (removeFromRoom 3 ''A'' w3) = rooms w3" using a by simp
  from C9_second_close_changes_nothing
    [where c = 2 and w = w3 and e = env_ok and ws = 1 and room = "''A''" and n = 0
      and w' = "Chat_close env_ok ''A'' 1 (Chat_open env_ok ''A'' 1 w3)"] a c
  have 4: "map fst (filter (\<lambda>x. Type (fst (snd x)) = ''leave'')
     (sent_during w3 (Chat_close env_ok ''A'' 1 (Chat_open env_ok ''A'' 1 w3)))) = [1, 2]"
    and 5: "length (filter (\<lambda>x. Type (fst (snd x)) = ''leave'')
     (received_by 2 w3 (Chat_close env_ok ''A'' 1 (Chat_open env_ok ''A'' 1 w3)))) \<le> 1"
    by simp_all
  from a r c d 1 2 3 4 5 show ?thesis by simp
qed


section \<open>Streaming calls: sequence numbers and outcome\<close>

declare ServerStream_loop.simps [simp del]
declare show_nat.simps [simp del]

lemma recv_flow_step:
  "goes_on e i \<Longrightarrow>
     recv_flow e i (of_nat i) out ch =
     recv_flow e (Suc i) (of_nat (Suc i)) (out @ [echo_response e i]) ch"
  by (subst recv_flow.simps)
    (simp add: goes_on_def echo_response_def request_at_def Let_def add.commute
      split: recv_result.splits)

lemma recv_flow_stop:
  "\<not> goes_on e i \<Longrightarrow>
     recv_flow e i s out ch =
     Some (out, case flow_outcome e i of None \<Rightarrow> ch | Some err \<Rightarrow> chan_send err ch)"
  by (subst recv_flow.simps)
    (auto simp: goes_on_def flow_outcome_def Let_def split: recv_result.splits option.splits)

lemma recv_flow_run:
  assumes "\<forall>j. i \<le> j \<and> j < K \<longrightarrow> goes_on e j" and "\<not> goes_on e K" and "i \<le> K"
  shows "recv_flow e i (of_nat i) out ch =
     Some (out @ map (echo_response e) [i..<K],
           case flow_outcome e K of None \<Rightarrow> ch | Some err \<Rightarrow> chan_send err ch)"
  using assms
proof (induction "K - i" arbitrary: i out)
  case 0
  then have "i = K" by simp
  with 0 show ?case by (simp add: recv_flow_stop)
next
  case (Suc d)
  then have lt: "i < K" and g: "goes_on e i" by auto
  from Suc have "recv_flow e (Suc i) (of_nat (Suc i)) (out @ [echo_response e i]) ch =
     Some ((out @ [echo_response e i]) @ map (echo_response e) [Suc i..<K],
           case flow_outcome e K of None \<Rightarrow> ch | Some err \<Rightarrow> chan_send err ch)"
    by (intro Suc.hyps(1)) auto
  with lt show ?case
    by (simp add: recv_flow_step[OF g] upt_conv_Cons)
qed

lemma recv_flow_forever:
  "\<forall>j \<ge> i. goes_on e j \<Longrightarrow> recv_flow e i s out ch = None"
proof -
  have "\<forall>e i s out ch. (\<forall>j \<ge> i. goes_on e j) \<longrightarrow> recv_flow e i s out ch = None"
  proof (induction rule: recv_flow.fixp_induct)
    case 1
    show ?case by (rule ccpo.admissibleI) (auto simp: flat_lub_def fun_lub_def)
  next
    case 2
    show ?case by simp
  next
    case (3 f)
    show ?case
    proof (intro allI impI)
      fix e i s out ch
      assume a: "\<forall>j \<ge> i. goes_on e j"
      then have "goes_on e i" and "\<forall>j \<ge> Suc i. goes_on e j" by auto
      with 3 show "(case stream_Recv e i of
           Item req \<Rightarrow>
             let sequence1 = s + 1;
                 response =
                   \<lparr>resp_Id = req_Id req,
                      resp_Data = ''Echo: '' @ req_Data req @ '' (processed)'',
                      resp_Timestamp = stream_clk e i, resp_Sequence = sequence1\<rparr>
             in case stream_Send e i of
                None \<Rightarrow> f e (Suc i) sequence1 (out @ [response]) ch
                | Some err \<Rightarrow> Some (out, chan_send err ch)
           | EOF \<Rightarrow> Some (out, ch) | RecvErr err \<Rightarrow> Some (out, chan_send err ch)) = None"
        by (auto simp: goes_on_def Let_def split: recv_result.splits)
    qed
  qed
  then show "\<forall>j \<ge> i. goes_on e j \<Longrightarrow> recv_flow e i s out ch = None" by blast
qed

lemma chan_recv_after:
  "chan_recv (chan_close (case out of None \<Rightarrow> make_chan | Some err \<Rightarrow> chan_send err make_chan))
     = Some out"
  by (cases out) (simp_all add: chan_recv_def chan_close_def chan_send_def make_chan_def)

lemma BidiStream_stops:
  assumes "\<forall>j < K. goes_on e j" and "\<not> goes_on e K"
  shows "BidiStream e = Some (flow_outcome e K, map (echo_response e) [0..<K])"
proof -
  from assms have "recv_flow e 0 (of_nat 0) [] make_chan =
     Some ([] @ map (echo_response e) [0..<K],
           case flow_outcome e K of None \<Rightarrow> make_chan | Some err \<Rightarrow> chan_send err make_chan)"
    by (intro recv_flow_run) auto
  then show ?thesis
    by (simp add: BidiStream_def chan_recv_after)
qed

lemma BidiStream_forever: "\<forall>j. goes_on e j \<Longrightarrow> BidiStream e = None"
  using recv_flow_forever[of 0 e 0 "[]" make_chan] by (simp add: BidiStream_def)

lemma chan_recv_closed: "chan_recv (chan_close ch) \<noteq> None"
  by (simp add: chan_recv_def chan_close_def split: list.splits)

lemma BidiStream_None_iff: "BidiStream e = None \<longleftrightarrow> recv_flow e 0 0 [] make_chan = None"
proof (cases "recv_flow e 0 0 [] make_chan")
  case None
  then show ?thesis by (simp add: BidiStream_def)
next
  case (Some r)
  obtain out ch where r: "r = (out, ch)" by (cases r)
  from chan_recv_closed[of ch] obtain err where "chan_recv (chan_close ch) = Some err"
    by auto
  with Some r show ?thesis by (simp add: BidiStream_def)
qed

lemma BidiStream_returned:
  assumes "BidiStream e = Some (err, out)"
  shows "\<exists>K. (\<forall>j < K. goes_on e j) \<and> \<not> goes_on e K \<and> err = flow_outcome e K \<and>
     out = map (echo_response e) [0..<K]"
proof -
  have "\<exists>j. \<not> goes_on e j"
    using BidiStream_forever[of e] assms by auto
  then obtain K where K: "\<not> goes_on e K" "\<forall>j < K. goes_on e j"
    using exists_least_iff[of "\<lambda>j. \<not> goes_on e j"] by auto
  from BidiStream_stops[OF K(2) K(1)] assms K show ?thesis by auto
qed

text \<open>
  C5. The duplex call returns exactly when its receive flow returns. When the flow stops
  at pass \<open>K\<close>, after \<open>K\<close> items answered, the call returns what stopped it: success on
  the end of input, and otherwise the error of the failed receive or of the failed send,
  which is the first error the flow met, since the flow stops at it. When every pass
  goes on, the flow never returns and neither does the call.
\<close>

theorem C5_call_outcome_is_flow_outcome:
  "(BidiStream e = None \<longleftrightarrow> recv_flow e 0 0 [] make_chan = None) \<and>
   ((\<forall>j < K. goes_on e j) \<longrightarrow> \<not> goes_on e K \<longrightarrow>
      BidiStream e = Some (flow_outcome e K, map (echo_response e) [0..<K])) \<and>
   ((\<forall>j. goes_on e j) \<longrightarrow> BidiStream e = None)"
  using BidiStream_None_iff[of e] BidiStream_stops[of K e] BidiStream_forever[of e]
  by blast

lemma goes_on_senv:
  "goes_on (senv items final) j \<longleftrightarrow> j < length items \<or> (\<exists>r. final = Item r)"
  by (auto simp: goes_on_def senv_def split: recv_result.splits)

text \<open>
  Two items and the end of input; one item and a reset; a send that fails on the second
  item; and a stream that never ends.
\<close>

theorem C5_call_outcome_is_flow_outcome_witness:
  "BidiStream (senv [ping, ping] EOF) =
     Some (None,
       [\<lparr>resp_Id = ''a'', resp_Data = ''Echo: ping (processed)'',
         resp_Timestamp = 1700000000, resp_Sequence = 1\<rparr>,
        \<lparr>resp_Id = ''a'', resp_Data = ''Echo: ping (processed)'',
         resp_Timestamp = 1700000000, resp_Sequence = 2\<rparr>]) \<and>
   BidiStream (senv [ping] (RecvErr ''connection reset'')) =
     Some (Some ''connection reset'',
       [\<lparr>resp_Id = ''a'', resp_Data = ''Echo: ping (processed)'',
         resp_Timestamp = 1700000000, resp_Sequence = 1\<rparr>]) \<and>
   BidiStream ((senv [ping, ping] EOF)\<lparr>stream_Send := (\<lambda>i. if i = 1 then Some ''broken pipe''
      else None)\<rparr>) =
     Some (Some ''broken pipe'',
       [\<lparr>resp_Id = ''a'', resp_Data = ''Echo: ping (processed)'',
         resp_Timestamp = 1700000000, resp_Sequence = 1\<rparr>]) \<and>
   BidiStream senv_endless = None \<and> recv_flow senv_endless 0 0 [] make_chan = None"
proof -
  let ?bad = "(senv [ping, ping] EOF)\<lparr>stream_Send := (\<lambda>i. if i = 1 then Some ''broken pipe''
      else None)\<rparr>"
  have g1: "\<forall>j < 2. goes_on (senv [ping, ping] EOF) j" "\<not> goes_on (senv [ping, ping] EOF) 2"
    and g2: "\<forall>j < 1. goes_on (senv [ping] (RecvErr ''connection reset'')) j"
      "\<not> goes_on (senv [ping] (RecvErr ''connection reset'')) 1"
    by (simp_all add: goes_on_senv)
  have g3: "\<forall>j < 1. goes_on ?bad j" "\<not> goes_on ?bad 1"
    by (simp_all add: goes_on_def senv_def)
  have g4: "\<forall>j. goes_on senv_endless j"
    by (simp add: goes_on_def senv_endless_def)
  have u: "[0..<2] = [0, 1]" "[0..<1] = [0]"
    by (simp_all add: upt_conv_Cons)
  from C5_call_outcome_is_flow_outcome[of "senv [ping, ping] EOF" 2] g1
  have 1: "BidiStream (senv [ping, ping] EOF) =
     Some (None,
       [\<lparr>resp_Id = ''a'', resp_Data = ''Echo: ping (processed)'',
         resp_Timestamp = 1700000000, resp_Sequence = 1\<rparr>,
        \<lparr>resp_Id = ''a'', resp_Data = ''Echo: ping (processed)'',
         resp_Timestamp = 1700000000, resp_Sequence = 2\<rparr>])"
    by (simp add: u flow_outcome_def echo_response_def request_at_def senv_def ping_def)
  from C5_call_outcome_is_flow_outcome[of "senv [ping] (RecvErr ''connection reset'')" 1] g2
  have 2: "BidiStream (senv [ping] (RecvErr ''connection reset'')) =
     Some (Some ''connection reset'',
       [\<lparr>resp_Id = ''a'', resp_Data = ''Echo: ping (processed)'',
         resp_Timestamp = 1700000000, resp_Sequence = 1\<rparr>])"
    by (simp add: u flow_outcome_def echo_response_def request_at_def senv_def ping_def)
  from C5_call_outcome_is_flow_outcome[of ?bad 1] g3
  have 3: "BidiStream ?bad =
     Some (Some ''broken pipe'',
       [\<lparr>resp_Id = ''a'', resp_Data = ''Echo: ping (processed)'',
         resp_Timestamp = 1700000000, resp_Sequence = 1\<rparr>])"
    by (simp add: u flow_outcome_def echo_response_def request_at_def senv_def ping_def)
  note t = C5_call_outcome_is_flow_outcome[of senv_endless 0]
  from t g4 have 4: "BidiStream senv_endless = None"
    by blast
  from t 4 have 5: "recv_flow senv_endless 0 0 [] make_chan = None"
    by simp
  from 1 2 3 4 5 show ?thesis by simp
qed

lemma ServerStream_loop_sequences:
  assumes "length out = i" and "i \<le> 5"
    and "map resp_Sequence out = map (\<lambda>j. of_nat (Suc j)) [0..<i]"
  shows "length (snd (ServerStream_loop e req i out)) \<le> 5 \<and>
    map resp_Sequence (snd (ServerStream_loop e req i out)) =
      map (\<lambda>j. of_nat (Suc j)) [0..<length (snd (ServerStream_loop e req i out))]"
  using assms
proof (induction e req i out rule: ServerStream_loop.induct)
  case (1 e req i out)
  show ?case
  proof (cases "i < 5 \<and> stream_ctx_Err e i = None \<and> stream_Send e i = None")
    case False
    with "1.prems" show ?thesis
      by (subst (1 2 3) ServerStream_loop.simps) (auto split: option.splits)
  next
    case True
    let ?r = "\<lparr>resp_Id = req_Id req,
                 resp_Data = req_Data req @ '' - response '' @ show_nat (i + 1),
                 resp_Timestamp = stream_clk e i,
                 resp_Sequence = of_nat (i + 1)\<rparr>"
    have step: "ServerStream_loop e req i out = ServerStream_loop e req (i + 1) (out @ [?r])"
      using True by (subst ServerStream_loop.simps) (simp add: Let_def)
    have "length (snd (ServerStream_loop e req (i + 1) (out @ [?r]))) \<le> 5 \<and>
      map resp_Sequence (snd (ServerStream_loop e req (i + 1) (out @ [?r]))) =
        map (\<lambda>j. of_nat (Suc j))
          [0..<length (snd (ServerStream_loop e req (i + 1) (out @ [?r])))]"
      using True "1.prems" by (intro "1.IH"[of ?r]) simp_all
    then show ?thesis by (simp only: step)
  qed
qed

lemma ServerStream_loop_run:
  assumes "\<forall>j. i \<le> j \<and> j < 5 \<longrightarrow> stream_ctx_Err e j = None \<and> stream_Send e j = None"
    and "i \<le> 5"
  shows "ServerStream_loop e req i out = (None, out @ map (server_response e req) [i..<5])"
  using assms
proof (induction "5 - i" arbitrary: i out)
  case 0
  then have "i = 5" by simp
  then show ?case by (subst ServerStream_loop.simps) simp
next
  case (Suc d)
  then have lt: "i < 5" and ok: "stream_ctx_Err e i = None" "stream_Send e i = None"
    by auto
  from Suc have "ServerStream_loop e req (Suc i) (out @ [server_response e req i]) =
      (None, (out @ [server_response e req i]) @ map (server_response e req) [Suc i..<5])"
    by (intro Suc.hyps(1)) auto
  moreover have "ServerStream_loop e req i out =
      ServerStream_loop e req (Suc i) (out @ [server_response e req i])"
    using lt ok by (subst ServerStream_loop.simps) (simp add: server_response_def Let_def)
  ultimately show ?case using lt by (simp add: upt_conv_Cons)
qed

lemma upt_5: "[0..<5] = [0, 1, 2, 3, 4]"
  by (simp add: upt_rec)

lemma ServerStream_complete:
  assumes "\<forall>i < 5. stream_ctx_Err e i = None \<and> stream_Send e i = None"
  shows "fst (ServerStream e req) = None \<and>
    map (\<lambda>r. sint (resp_Sequence r)) (snd (ServerStream e req)) = [1, 2, 3, 4, 5]"
proof -
  from assms have "ServerStream e req = (None, [] @ map (server_response e req) [0..<5])"
    unfolding ServerStream_def by (intro ServerStream_loop_run) auto
  then show ?thesis by (simp add: upt_5 server_response_def)
qed

lemma sint_sequence:
  assumes "j < 2147483647"
  shows "sint (of_nat (Suc j) :: int32) = int j + 1"
proof -
  have "sint (of_nat (Suc j) :: int32) = signed_take_bit 31 (int (Suc j))"
    using sint_sbintrunc'[where 'a = 32, of "int (Suc j)"] by simp
  also have "\<dots> = int (Suc j)"
    using assms by (intro signed_take_bit_int_eq_self) simp_all
  finally show ?thesis by simp
qed

text \<open>
  C4, with the bound of \<^verbatim>\<open>int32\<close>. Whatever the duplex call has sent when it returns,
  the sequence numbers are the words \<open>1, 2, ...\<close> in order, one per response. A client that
  sends \<open>K\<close> items and then ends its input, every response being sent, gets \<open>K\<close>
  responses, the \<open>j\<close>-th item answered with its own identifier, and as long as
  \<open>K \<le> 2\<^sup>3\<^sup>1 - 1\<close> the numbers read \<open>1..K\<close>. The server-streaming call sends at most
  five responses numbered from 1 consecutively, and all five, numbered \<open>1..5\<close>, when
  neither the context nor a send fails.
\<close>

theorem C4_sequence_numbers:
  "(BidiStream e = Some (err, out) \<longrightarrow>
      map resp_Sequence out = map (\<lambda>j. of_nat (Suc j)) [0..<length out]) \<and>
   ((\<forall>j < K. goes_on e j) \<longrightarrow> stream_Recv e K = EOF \<longrightarrow> K \<le> 2147483647 \<longrightarrow>
      (\<exists>out. BidiStream e = Some (None, out) \<and> length out = K \<and>
         (\<forall>j < K. sint (resp_Sequence (out ! j)) = int j + 1 \<and>
            resp_Id (out ! j) = req_Id (request_at e j)))) \<and>
   length (snd (ServerStream e req)) \<le> 5 \<and>
   map resp_Sequence (snd (ServerStream e req)) =
     map (\<lambda>j. of_nat (Suc j)) [0..<length (snd (ServerStream e req))] \<and>
   ((\<forall>i < 5. stream_ctx_Err e i = None \<and> stream_Send e i = None) \<longrightarrow>
      fst (ServerStream e req) = None \<and>
      map (\<lambda>r. sint (resp_Sequence r)) (snd (ServerStream e req)) = [1, 2, 3, 4, 5])"
proof -
  have 1: "map resp_Sequence out = map (\<lambda>j. of_nat (Suc j)) [0..<length out]"
    if "BidiStream e = Some (err, out)"
  proof -
    from BidiStream_returned[OF that] obtain K where "out = map (echo_response e) [0..<K]"
      by blast
    then show ?thesis by (simp add: echo_response_def comp_def)
  qed
  have 2: "\<exists>out. BidiStream e = Some (None, out) \<and> length out = K \<and>
         (\<forall>j < K. sint (resp_Sequence (out ! j)) = int j + 1 \<and>
            resp_Id (out ! j) = req_Id (request_at e j))"
    if g: "\<forall>j < K. goes_on e j" and eof: "stream_Recv e K = EOF" and K: "K \<le> 2147483647"
  proof -
    from eof have "\<not> goes_on e K" "flow_outcome e K = None"
      by (simp_all add: goes_on_def flow_outcome_def)
    with BidiStream_stops[OF g]
    have b: "BidiStream e = Some (None, map (echo_response e) [0..<K])" by simp
    have "sint (resp_Sequence (map (echo_response e) [0..<K] ! j)) = int j + 1 \<and>
        resp_Id (map (echo_response e) [0..<K] ! j) = req_Id (request_at e j)" if "j < K" for j
      using that K sint_sequence[of j] by (simp add: echo_response_def)
    with b show ?thesis by simp
  qed
  have 3: "length (snd (ServerStream e req)) \<le> 5 \<and>
     map resp_Sequence (snd (ServerStream e req)) =
       map (\<lambda>j. of_nat (Suc j)) [0..<length (snd (ServerStream e req))]"
    unfolding ServerStream_def by (rule ServerStream_loop_sequences) simp_all
  from 1 2 3 ServerStream_complete[of e req] show ?thesis by blast
qed

text \<open>
  C4 as stated, for every \<open>K\<close>, fails: \<^verbatim>\<open>sequence\<close> is an \<^verbatim>\<open>int32\<close>, and \<^verbatim>\<open>sequence++\<close>
  wraps. On a stream of \<open>2\<^sup>3\<^sup>1\<close> items the last response carries \<open>-2\<^sup>3\<^sup>1\<close>.
\<close>

theorem C4_sequence_wraps_after_2147483647:
  "map_option (\<lambda>(err, out). (err, length out, sint (resp_Sequence (out ! 2147483647))))
     (BidiStream senv_flood) = Some (None, 2147483648, - 2147483648)"
proof -
  have g: "\<forall>j < 2147483648. goes_on senv_flood j" "\<not> goes_on senv_flood 2147483648"
    and o: "flow_outcome senv_flood 2147483648 = None"
    by (simp_all add: goes_on_def flow_outcome_def senv_flood_def)
  have "BidiStream senv_flood = Some (None, map (echo_response senv_flood) [0..<2147483648])"
    using BidiStream_stops[OF g] o by simp
  moreover have "sint (resp_Sequence (echo_response senv_flood 2147483647)) = - 2147483648"
    by (simp add: echo_response_def)
  ultimately show ?thesis by simp
qed

lemma digit_chars:
  "char_of (49::nat) = CHR ''1''" "char_of (50::nat) = CHR ''2''" "char_of (51::nat) = CHR ''3''"
  "char_of (52::nat) = CHR ''4''" "char_of (53::nat) = CHR ''5''"
  by code_simp+

text \<open>
  Three items on the duplex call, and the server-streaming call on an undisturbed stream.
\<close>

theorem C4_sequence_numbers_witness:
  "BidiStream (senv [ping, ping, ping] EOF) =
     Some (None,
       [\<lparr>resp_Id = ''a'', resp_Data = ''Echo: ping (processed)'',
         resp_Timestamp = 1700000000, resp_Sequence = 1\<rparr>,
        \<lparr>resp_Id = ''a'', resp_Data = ''Echo: ping (processed)'',
         resp_Timestamp = 1700000000, resp_Sequence = 2\<rparr>,
        \<lparr>resp_Id = ''a'', resp_Data = ''Echo: ping (processed)'',
         resp_Timestamp = 1700000000, resp_Sequence = 3\<rparr>]) \<and>
   ServerStream (senv [] EOF) ping =
     (None,
       [\<lparr>resp_Id = ''a'', resp_Data = ''ping - response 1'',
         resp_Timestamp = 1700000000, resp_Sequence = 1\<rparr>,
        \<lparr>resp_Id = ''a'', resp_Data = ''ping - response 2'',
         resp_Timestamp = 1700000000, resp_Sequence = 2\<rparr>,
        \<lparr>resp_Id = ''a'', resp_Data = ''ping - response 3'',
         resp_Timestamp = 1700000000, resp_Sequence = 3\<rparr>,
        \<lparr>resp_Id = ''a'', resp_Data = ''ping - response 4'',
         resp_Timestamp = 1700000000, resp_Sequence = 4\<rparr>,
        \<lparr>resp_Id = ''a'', resp_Data = ''ping - response 5'',
         resp_Timestamp = 1700000000, resp_Sequence = 5\<rparr>]) \<and>
   map (\<lambda>r. sint (resp_Sequence r)) (snd (ServerStream (senv [] EOF) ping)) = [1, 2, 3, 4, 5] \<and>
   (\<exists>out. BidiStream (senv [ping, ping, ping] EOF) = Some (None, out) \<and> length out = 3 \<and>
      (\<forall>j < 3. sint (resp_Sequence (out ! j)) = int j + 1))"
proof -
  let ?e = "senv [ping, ping, ping] EOF"
  have g: "\<forall>j < 3. goes_on ?e j" "stream_Recv ?e 3 = EOF" "\<not> goes_on ?e 3"
    "flow_outcome ?e 3 = None"
    by (simp_all add: goes_on_senv) (simp_all add: senv_def flow_outcome_def)
  have u: "[0..<3] = [0, 1, 2]"
    by (simp add: upt_rec)
  have b: "BidiStream ?e =
     Some (None,
       [\<lparr>resp_Id = ''a'', resp_Data = ''Echo: ping (processed)'',
         resp_Timestamp = 1700000000, resp_Sequence = 1\<rparr>,
        \<lparr>resp_Id = ''a'', resp_Data = ''Echo: ping (processed)'',
         resp_Timestamp = 1700000000, resp_Sequence = 2\<rparr>,
        \<lparr>resp_Id = ''a'', resp_Data = ''Echo: ping (processed)'',
         resp_Timestamp = 1700000000, resp_Sequence = 3\<rparr>])"
    using BidiStream_stops[OF g(1) g(3)] g(4)
    by (simp add: u echo_response_def request_at_def senv_def ping_def)
  have ok: "\<forall>i < 5. stream_ctx_Err (senv [] EOF) i = None \<and> stream_Send (senv [] EOF) i = None"
    by (simp add: senv_def)
  have s: "ServerStream (senv [] EOF) ping =
     (None,
       [\<lparr>resp_Id = ''a'', resp_Data = ''ping - response 1'',
         resp_Timestamp = 1700000000, resp_Sequence = 1\<rparr>,
        \<lparr>resp_Id = ''a'', resp_Data = ''ping - response 2'',
         resp_Timestamp = 1700000000, resp_Sequence = 2\<rparr>,
        \<lparr>resp_Id = ''a'', resp_Data = ''ping - response 3'',
         resp_Timestamp = 1700000000, resp_Sequence = 3\<rparr>,
        \<lparr>resp_Id = ''a'', resp_Data = ''ping - response 4'',
         resp_Timestamp = 1700000000, resp_Sequence = 4\<rparr>,
        \<lparr>resp_Id = ''a'', resp_Data = ''ping - response 5'',
         resp_Timestamp = 1700000000, resp_Sequence = 5\<rparr>])"
    using ServerStream_loop_run[of 0 "senv [] EOF" ping "[]"] ok
    by (simp add: ServerStream_def upt_5 server_response_def show_nat.simps senv_def ping_def
        digit_chars)
  note t = C4_sequence_numbers
    [where e = "senv [] EOF" and req = ping and K = 0 and err = None and out = "[]"]
  from t ok have 1:
    "map (\<lambda>r. sint (resp_Sequence r)) (snd (ServerStream (senv [] EOF) ping)) = [1, 2, 3, 4, 5]"
    by blast
  note t' = C4_sequence_numbers
    [where e = ?e and req = ping and K = 3 and err = None and out = "[]"]
  from t' g(1,2) have "\<exists>out. BidiStream ?e = Some (None, out) \<and> length out = 3 \<and>
      (\<forall>j < 3. sint (resp_Sequence (out ! j)) = int j + 1 \<and>
         resp_Id (out ! j) = req_Id (request_at ?e j))"
    by simp
  then have 2: "\<exists>out. BidiStream ?e = Some (None, out) \<and> length out = 3 \<and>
      (\<forall>j < 3. sint (resp_Sequence (out ! j)) = int j + 1)"
    by blast
  from b s 1 2 show ?thesis by blast
qed

end
